theory Spec2Isabelle
  imports Complex_Main "HOL-Library.Word"
begin

unbundle bit_operations_syntax

section \<open>Python values used by the controller\<close>

text \<open>
  A Python \<open>str\<close> is a list of code points and a \<open>bytes\<close> object a list of octets.
  Both are lists of \<^typ>\<open>char\<close> here; for a \<open>str\<close> the character stands for the code
  point of the same number (U+0000 to U+00FF), so the ASCII strings of the protocol are
  exactly the strings whose characters are below 128.
\<close>

type_synonym bytes = "char list"

datatype pyerror = IndexError | ValueError | UnicodeEncodeError | SerialException | AttributeError

text \<open>\<open>UnicodeEncodeError\<close> is a subclass of \<open>ValueError\<close>.\<close>

definition is_ValueError :: "pyerror \<Rightarrow> bool" where
  "is_ValueError e = (e = ValueError \<or> e = UnicodeEncodeError)"

definition code :: "char \<Rightarrow> nat" where
  "code c = of_char c"

definition is_ascii :: "char \<Rightarrow> bool" where
  "is_ascii c = (code c < 128)"

text \<open>\<open>s.encode('ascii')\<close> and \<open>b.decode('ascii', errors='ignore')\<close>.\<close>

definition encode_ascii :: "string \<Rightarrow> pyerror + bytes" where
  "encode_ascii s = (if list_all is_ascii s then Inr s else Inl UnicodeEncodeError)"

definition decode_ascii_ignore :: "bytes \<Rightarrow> string" where
  "decode_ascii_ignore b = filter is_ascii b"

text \<open>
  Indexing and slicing with Python's rules: a negative index counts from the end, an index
  out of range raises \<open>IndexError\<close>, a slice is clipped to the sequence.
\<close>

definition py_index :: "'a list \<Rightarrow> int \<Rightarrow> pyerror + 'a" where
  "py_index xs i =
     (if 0 \<le> i \<and> i < int (length xs) then Inr (xs ! nat i)
      else if i < 0 \<and> - int (length xs) \<le> i then Inr (xs ! nat (int (length xs) + i))
      else Inl IndexError)"

definition clip :: "int \<Rightarrow> int \<Rightarrow> nat" where
  "clip n i = nat (if i < 0 then max (n + i) 0 else min i n)"

definition py_slice :: "'a list \<Rightarrow> int \<Rightarrow> int \<Rightarrow> 'a list" where
  "py_slice xs i j =
     (let n = int (length xs); a = clip n i; b = clip n j
      in take (b - a) (drop a xs))"

definition startswith :: "string \<Rightarrow> string \<Rightarrow> bool" where
  "startswith s p = (take (length p) s = p)"

text \<open>\<open>s.split(' ')\<close>: every single space separates, empty fields are kept.\<close>

fun split_on :: "char \<Rightarrow> string \<Rightarrow> string list" where
  "split_on d [] = [[]]"
| "split_on d (c # cs) =
     (if c = d then [] # split_on d cs
      else (case split_on d cs of [] \<Rightarrow> [[c]] | p # ps \<Rightarrow> (c # p) # ps))"

text \<open>\<open>s.lower()\<close> on the code points below 256.\<close>

definition lower_char :: "char \<Rightarrow> char" where
  "lower_char c =
     (let n = code c
      in if (65 \<le> n \<and> n \<le> 90) \<or> (192 \<le> n \<and> n \<le> 222 \<and> n \<noteq> 215) then char_of (n + 32) else c)"

definition lower :: "string \<Rightarrow> string" where
  "lower s = map lower_char s"

subsection \<open>Formatting integers\<close>

definition digit_char :: "nat \<Rightarrow> char" where
  "digit_char d = ''0123456789ABCDEFGHIJKLMNOPQRSTUVWXYZ'' ! (d mod 36)"

text \<open>The digits of a number that is not negative, in a base from 2 to 36.\<close>

function digits_of :: "int \<Rightarrow> int \<Rightarrow> string" where
  "digits_of b n =
     (if b < 2 \<or> n < b then [digit_char (nat n)]
      else digits_of b (n div b) @ [digit_char (nat (n mod b))])"
  by pat_completeness auto
termination
  by (relation "measure (\<lambda>(b, n). nat n)") (auto simp: nat_less_iff int_div_less_self)

declare digits_of.simps [simp del]

text \<open>
  The format specifications \<open>0wd\<close> and \<open>0wX\<close>: the digits in base \<open>b\<close> (uppercase),
  padded with zeros to the width \<open>w\<close>, the sign first.
\<close>

definition format_int :: "int \<Rightarrow> nat \<Rightarrow> int \<Rightarrow> string" where
  "format_int b w n =
     (let ds = digits_of b \<bar>n\<bar>
      in if n < 0 then CHR ''-'' # replicate (w - 1 - length ds) CHR ''0'' @ ds
         else replicate (w - length ds) CHR ''0'' @ ds)"

subsection \<open>Parsing integers: \<open>int(s)\<close> and \<open>int(s, 16)\<close>\<close>

text \<open>
  Before parsing, a code point from 127 on is replaced: by a space when it is Unicode white
  space (U+0085 and U+00A0 below 256), by a question mark otherwise, since it is no decimal
  digit.
\<close>

definition to_ascii :: "char \<Rightarrow> char" where
  "to_ascii c =
     (let n = code c
      in if n < 127 then c else if n = 133 \<or> n = 160 then CHR '' '' else CHR ''?'')"

definition py_isspace :: "char \<Rightarrow> bool" where
  "py_isspace c = (let n = code c in (9 \<le> n \<and> n \<le> 13) \<or> n = 32)"

definition digit_value :: "char \<Rightarrow> nat" where
  "digit_value c =
     (let n = code c
      in if 48 \<le> n \<and> n \<le> 57 then n - 48
         else if 97 \<le> n \<and> n \<le> 122 then n - 87
         else if 65 \<le> n \<and> n \<le> 90 then n - 55
         else 37)"

fun double_underscore :: "string \<Rightarrow> bool" where
  "double_underscore (a # b # r) = ((a = CHR ''_'' \<and> b = CHR ''_'') \<or> double_underscore (b # r))"
| "double_underscore _ = False"

definition number_of :: "nat \<Rightarrow> string \<Rightarrow> int" where
  "number_of b ds = foldl (\<lambda>acc c. acc * int b + int (digit_value c)) 0 ds"

definition strip_sign :: "string \<Rightarrow> bool \<times> string" where
  "strip_sign s =
     (case s of
        [] \<Rightarrow> (False, [])
      | c # r \<Rightarrow> if c = CHR ''+'' then (False, r) else if c = CHR ''-'' then (True, r) else (False, s))"

definition strip_prefix :: "nat \<Rightarrow> string \<Rightarrow> string" where
  "strip_prefix b s =
     (case s of
        z # x # r \<Rightarrow>
          if b = 16 \<and> z = CHR ''0'' \<and> (x = CHR ''x'' \<or> x = CHR ''X'')
          then (case r of [] \<Rightarrow> [] | u # r' \<Rightarrow> if u = CHR ''_'' then r' else r)
          else s
      | _ \<Rightarrow> s)"

text \<open>
  \<open>int(s, b)\<close> for a base \<open>b\<close> of 10 or 16; \<open>None\<close> is \<open>ValueError\<close>. White space on both
  sides, a sign, for base 16 the prefix \<open>0x\<close>, then digits with single underscores between
  them.
\<close>

definition py_int :: "nat \<Rightarrow> string \<Rightarrow> int option" where
  "py_int b s =
     (let (neg, s1) = strip_sign (dropWhile py_isspace (map to_ascii s));
          s2 = strip_prefix b s1;
          isd = (\<lambda>c. digit_value c < b \<or> c = CHR ''_'');
          body = takeWhile isd s2;
          rest = dropWhile isd s2
      in if body = [] \<or> hd body = CHR ''_'' \<or> last body = CHR ''_'' \<or> double_underscore body
            \<or> dropWhile py_isspace rest \<noteq> []
         then None
         else let v = number_of b (filter (\<lambda>c. c \<noteq> CHR ''_'') body)
              in Some (if neg then - v else v))"

section \<open>Floating-point values\<close>

text \<open>
  A finite Python \<open>float\<close> is a binary64 number, which is a rational. The arithmetic
  operations round the exact result to the nearest binary64 number, ties to the even
  significand: \<open>round64\<close>. The exponent is unbounded above, so an overflow to infinity is
  not modelled; the operands of every product and quotient below are bounded by the range
  checks before them. The sign of a zero is not kept.
\<close>

datatype pyfloat = Finite rat | Inf bool | NaN

function bit_length :: "int \<Rightarrow> nat" where
  "bit_length n = (if n \<le> 0 then 0 else Suc (bit_length (n div 2)))"
  by pat_completeness auto
termination
  by (relation "measure nat") auto

declare bit_length.simps [simp del]

definition round_half_even :: "int \<Rightarrow> int \<Rightarrow> int" where
  "round_half_even n d =
     (let q = n div d; r = n mod d
      in if 2 * r < d then q else if 2 * r > d then q + 1 else if even q then q else q + 1)"

text \<open>The exponent \<open>e\<close> with \<open>2 ^ e \<le> n / d < 2 ^ (e + 1)\<close>, for positive \<open>n\<close> and \<open>d\<close>.\<close>

definition ilog2 :: "int \<Rightarrow> int \<Rightarrow> int" where
  "ilog2 n d =
     (let k = int (bit_length n) - int (bit_length d)
      in if (if 0 \<le> k then d * 2 ^ nat k \<le> n else d \<le> n * 2 ^ nat (- k)) then k else k - 1)"

definition round64 :: "rat \<Rightarrow> rat" where
  "round64 x =
     (if x = 0 then 0
      else let (n, d) = quotient_of \<bar>x\<bar>;
               k = max (ilog2 n d - 52) (- 1074);
               m = (if 0 \<le> k then round_half_even n (d * 2 ^ nat k)
                    else round_half_even (n * 2 ^ nat (- k)) d);
               y = (if 0 \<le> k then of_int m * 2 ^ nat k else of_int m / 2 ^ nat (- k))
           in if x < 0 then - y else y)"

definition fmul :: "rat \<Rightarrow> rat \<Rightarrow> rat" where
  "fmul a b = round64 (a * b)"

definition fdiv :: "rat \<Rightarrow> rat \<Rightarrow> rat" where
  "fdiv a b = round64 (a / b)"

text \<open>\<open>int(x)\<close> of a finite float: the fraction is cut off, towards zero.\<close>

definition int_of_float :: "rat \<Rightarrow> int" where
  "int_of_float x = (if 0 \<le> x then \<lfloor>x\<rfloor> else \<lceil>x\<rceil>)"

subsection \<open>Parsing: \<open>float(s)\<close>\<close>

definition is_digit :: "char \<Rightarrow> bool" where
  "is_digit c = (48 \<le> code c \<and> code c \<le> 57)"

text \<open>
  Underscores are allowed between two digits only; they are removed before the number is
  read. \<open>None\<close> when one is misplaced.
\<close>

fun remove_underscores :: "char \<Rightarrow> string \<Rightarrow> string option" where
  "remove_underscores prev [] = (if prev = CHR ''_'' then None else Some [])"
| "remove_underscores prev (c # cs) =
     (if c = CHR ''_'' then (if is_digit prev then remove_underscores c cs else None)
      else if prev = CHR ''_'' \<and> \<not> is_digit c then None
      else map_option ((#) c) (remove_underscores c cs))"

definition strip :: "string \<Rightarrow> string" where
  "strip s = rev (dropWhile py_isspace (rev (dropWhile py_isspace s)))"

text \<open>The value of a finite float from the exact decimal value: overflow gives infinity.\<close>

definition float_of_rat :: "rat \<Rightarrow> pyfloat" where
  "float_of_rat q =
     (let r = round64 q in if 2 ^ 1024 \<le> \<bar>r\<bar> then Inf (r < 0) else Finite r)"

text \<open>
  The unsigned part of a literal: \<open>inf\<close>, \<open>infinity\<close> or \<open>nan\<close> in any case, or digits with
  an optional point and an optional exponent, at least one digit in the mantissa and in
  the exponent.
\<close>

definition parse_decimal :: "string \<Rightarrow> rat option" where
  "parse_decimal s =
     (let ip = takeWhile is_digit s;
          r1 = dropWhile is_digit s;
          has_point = (r1 \<noteq> [] \<and> hd r1 = CHR ''.'');
          fp = (if has_point then takeWhile is_digit (tl r1) else []);
          r2 = (if has_point then dropWhile is_digit (tl r1) else r1);
          m = of_int (number_of 10 (ip @ fp)) :: rat
      in if ip = [] \<and> fp = [] then None
         else if r2 = [] then Some (m / 10 ^ length fp)
         else if hd r2 = CHR ''e'' \<or> hd r2 = CHR ''E'' then
           (let (neg, ds) = strip_sign (tl r2)
            in if ds = [] \<or> \<not> list_all is_digit ds then None
               else let e = nat (number_of 10 ds)
                    in Some (if neg then m / 10 ^ length fp / 10 ^ e
                             else m / 10 ^ length fp * 10 ^ e))
         else None)"

definition py_float :: "string \<Rightarrow> pyfloat option" where
  "py_float s =
     (case remove_underscores CHR '' '' (strip (map to_ascii s)) of
        None \<Rightarrow> None
      | Some t \<Rightarrow>
          let (neg, u) = strip_sign t; w = lower u
          in if w = ''inf'' \<or> w = ''infinity'' then Some (Inf neg)
             else if w = ''nan'' then Some NaN
             else (case parse_decimal u of
                     None \<Rightarrow> None
                   | Some q \<Rightarrow> Some (float_of_rat (if neg then - q else q))))"

section \<open>The checksum\<close>

text \<open>
  \<open>calculate_checksum_ascii\<close>: the sum of the octets of the string, subtracted from zero,
  the low eight bits kept. Python integers are unbounded, so the sum is an \<^typ>\<open>int\<close>.
\<close>

definition calculate_checksum_ascii :: "string \<Rightarrow> pyerror + int" where
  "calculate_checksum_ascii data_str =
     (case encode_ascii data_str of
        Inl e \<Rightarrow> Inl e
      | Inr b \<Rightarrow> Inr ((0 - (\<Sum>c\<leftarrow>b. int (code c))) AND 0xFF))"

section \<open>The command packet\<close>

definition STX :: char where "STX = CHR 0x02"
definition ETX :: char where "ETX = CHR 0x03"
definition EOT :: char where "EOT = CHR 0x04"
definition ENQ :: char where "ENQ = CHR 0x05"
definition ACK :: char where "ACK = CHR 0x06"

text \<open>
  The packet that \<open>send_command\<close> builds from the command code and the data: the length in
  two hexadecimal digits, the command, the data, the checksum in two hexadecimal digits,
  between STX and ETX. An empty or absent \<open>data\<close> is the empty string.
\<close>

definition packet :: "string \<Rightarrow> string \<Rightarrow> pyerror + bytes" where
  "packet command_code data =
     (let command_str = command_code;
          data_str = (if data \<noteq> [] then data else []);
          len = int (length command_str) + int (length data_str);
          length_str = format_int 16 2 len;
          checksum_input_str = length_str @ command_str @ data_str
      in case calculate_checksum_ascii checksum_input_str of
           Inl e \<Rightarrow> Inl e
         | Inr checksum_value \<Rightarrow>
             let checksum_str = format_int 16 2 checksum_value
             in Inr ([STX] @ length_str @ command_str @ data_str @ checksum_str @ [ETX]))"

section \<open>The serial port and the controller\<close>

text \<open>
  The port is the device seen from the program. \<open>tx\<close> holds what has been written, one
  entry for each \<open>write\<close>. \<open>rx\<close> is what the device will deliver: one entry for each
  \<open>read\<close>, which returns at most the number of octets asked for and leaves the others
  for the next \<open>read\<close>; with no entry left a \<open>read\<close> times out and returns no octet.
  A \<open>read\<close> or a \<open>write\<close> may raise \<open>SerialException\<close>: an \<open>RxError\<close> entry, and
  \<open>True\<close> in \<open>tx_faults\<close> for the write of that position.
\<close>

datatype rx_event = Rx bytes | RxError

record serial =
  tx :: "bytes list"
  rx :: "rx_event list"
  tx_faults :: "bool list"

definition port_write :: "bytes \<Rightarrow> serial \<Rightarrow> (pyerror + unit) \<times> serial" where
  "port_write b s =
     (case tx_faults s of
        [] \<Rightarrow> (Inr (), s\<lparr>tx := tx s @ [b]\<rparr>)
      | f # fs \<Rightarrow>
          if f then (Inl SerialException, s\<lparr>tx_faults := fs\<rparr>)
          else (Inr (), s\<lparr>tx := tx s @ [b], tx_faults := fs\<rparr>))"

definition port_read :: "nat \<Rightarrow> serial \<Rightarrow> (pyerror + bytes) \<times> serial" where
  "port_read n s =
     (case rx s of
        [] \<Rightarrow> (Inr [], s)
      | RxError # r \<Rightarrow> (Inl SerialException, s\<lparr>rx := r\<rparr>)
      | Rx b # r \<Rightarrow>
          (Inr (take n b), s\<lparr>rx := (if n < length b then Rx (drop n b) # r else r)\<rparr>))"

text \<open>The messages of the logger, by level, without the wording.\<close>

datatype place = InResponse | InDataResponse

datatype debug_msg =
    SentENQ | ReceivedAck | SentPacket bytes | RawResponse bytes | SendingAck
  | ReceivedData bytes | SendingEOT | ProcessingData bytes | CommandAndData string

datatype info_msg =
    Started | SimulatedSent | SimulatedResponse | Delay | ReceivedSuccess | ReceivedFailure
  | ReceivedOther string string | SwitchedToSteady | SwitchedToTimed
  | Pressure rat | Time rat | Vacuum rat

datatype warning_msg =
    NoAckAfterENQ | NoResponse | NoStartTime | NoDataResponse
  | IncompleteLength place | InvalidLength place | IncompleteData place | MissingETX place
  | InvalidChecksum place | ChecksumMismatch place

datatype error_msg =
    CommunicationError | InvalidPressure pyfloat | BadPressureCommand
  | InvalidVacuum pyfloat | BadVacuumCommand | InvalidTime pyfloat | BadTimeCommand
  | InvalidMemoryLocation int | BadMemoryLocation
  | InvalidPressureUnit string | BadPressureUnitsCommand
  | InvalidVacuumUnit string | BadVacuumUnitsCommand
  | UnknownCommand string | Missing string | ParseError

datatype logmsg = Debug debug_msg | Info info_msg | Warning warning_msg | Error error_msg

text \<open>
  The fields of \<open>DispenserController\<close>. \<open>ser\<close> is \<open>None\<close> when no port could be opened
  (simulation mode). \<open>start_time\<close> is the time recorded when a command was entered; only
  whether it is set is read.
\<close>

record controller =
  ser :: "serial option"
  is_timed_mode :: bool
  start_time :: "rat option"
  logger :: "logmsg list"

text \<open>\<open>__init__\<close>, after \<open>connect\<close> has opened a port or not.\<close>

definition init :: "serial option \<Rightarrow> controller" where
  "init port = \<lparr>ser = port, is_timed_mode = True, start_time = None, logger = [Info Started]\<rparr>"

text \<open>
  The result of a method: \<open>None\<close> when it does not return, otherwise the state it leaves,
  with the exception that it raised (\<open>Inl\<close>) or the value that it returned (\<open>Inr\<close>).
\<close>

type_synonym 'a run = "controller \<Rightarrow> ((pyerror + 'a) \<times> controller) option"

definition return :: "'a \<Rightarrow> 'a run" where
  "return x st = Some (Inr x, st)"

definition raise :: "pyerror \<Rightarrow> 'a run" where
  "raise e st = Some (Inl e, st)"

definition seq :: "'a run \<Rightarrow> ('a \<Rightarrow> 'b run) \<Rightarrow> 'b run" where
  "seq m f st =
     (case m st of
        None \<Rightarrow> None
      | Some (Inl e, st') \<Rightarrow> Some (Inl e, st')
      | Some (Inr x, st') \<Rightarrow> f x st')"

definition say :: "logmsg \<Rightarrow> controller \<Rightarrow> controller" where
  "say m st = st\<lparr>logger := logger st @ [m]\<rparr>"

definition emit :: "logmsg \<Rightarrow> unit run" where
  "emit m st = Some (Inr (), say m st)"

definition ser_write :: "bytes \<Rightarrow> unit run" where
  "ser_write b st =
     (case ser st of
        None \<Rightarrow> Some (Inl AttributeError, st)
      | Some s \<Rightarrow> (case port_write b s of (r, s') \<Rightarrow> Some (r, st\<lparr>ser := Some s'\<rparr>)))"

definition ser_read :: "nat \<Rightarrow> bytes run" where
  "ser_read n st =
     (case ser st of
        None \<Rightarrow> Some (Inl AttributeError, st)
      | Some s \<Rightarrow> (case port_read n s of (r, s') \<Rightarrow> Some (r, st\<lparr>ser := Some s'\<rparr>)))"

section \<open>Reading a frame\<close>

text \<open>
  The body of the scanning loops of \<open>check_response\<close> and \<open>process_data_response\<close> after
  an STX, the same in both but for the place named in the warnings. \<open>index\<close> is the
  position after the STX. The loop is left (\<open>Stop\<close>), goes on behind the frame with a
  warning (\<open>Skip\<close>), or has a frame whose checksum is right (\<open>Frame\<close>, with the position
  behind the ETX and the command and data). An index out of range raises (\<open>Fault\<close>).
\<close>

datatype frame_result =
    Stop warning_msg
  | Skip warning_msg int
  | Frame int string
  | Fault pyerror

definition read_frame :: "place \<Rightarrow> bytes \<Rightarrow> int \<Rightarrow> frame_result" where
  "read_frame p response index =
     (if index + 1 \<ge> int (length response) then Stop (IncompleteLength p)
      else
        let length_str = decode_ascii_ignore (py_slice response index (index + 2));
            index1 = index + 2
        in (case py_int 16 length_str of
              None \<Rightarrow> Stop (InvalidLength p)
            | Some len \<Rightarrow>
                if index1 + len + 2 > int (length response) then Stop (IncompleteData p)
                else
                  let command_and_data =
                        decode_ascii_ignore (py_slice response index1 (index1 + len));
                      index2 = index1 + len;
                      checksum_str = decode_ascii_ignore (py_slice response index2 (index2 + 2));
                      index3 = index2 + 2
                  in if index3 \<ge> int (length response) then Stop (MissingETX p)
                     else
                       (case py_index response index3 of
                          Inl e \<Rightarrow> Fault e
                        | Inr b \<Rightarrow>
                            if b \<noteq> ETX then Stop (MissingETX p)
                            else
                              let index4 = index3 + 1
                              in (case calculate_checksum_ascii (length_str @ command_and_data) of
                                    Inl e \<Rightarrow> Fault e
                                  | Inr calculated_checksum \<Rightarrow>
                                      (case py_int 16 checksum_str of
                                         None \<Rightarrow> Skip (InvalidChecksum p) index4
                                       | Some received_checksum \<Rightarrow>
                                           if received_checksum \<noteq> calculated_checksum
                                           then Skip (ChecksumMismatch p) index4
                                           else Frame index4 command_and_data)))))"

section \<open>\<open>process_data_response\<close>\<close>

text \<open>
  The loop over the data response: the command and data of the first frame whose checksum
  is right. A length field may be negative (\<open>int('-6', 16)\<close>), the index then goes back and
  the loop need not end, so the function is partial.
\<close>

partial_function (option) process_data_loop ::
  "bytes \<Rightarrow> int \<Rightarrow> controller \<Rightarrow> ((pyerror + string option) \<times> controller) option"
where
  "process_data_loop response index st =
     (if index < int (length response) then
        (case py_index response index of
           Inl e \<Rightarrow> Some (Inl e, st)
         | Inr b \<Rightarrow>
             if b = STX then
               (case read_frame InDataResponse response (index + 1) of
                  Stop w \<Rightarrow> Some (Inr None, say (Warning w) st)
                | Fault e \<Rightarrow> Some (Inl e, st)
                | Skip w index' \<Rightarrow> process_data_loop response index' (say (Warning w) st)
                | Frame index' command_and_data \<Rightarrow>
                    Some (Inr (Some command_and_data),
                          say (Debug (CommandAndData command_and_data)) st))
             else process_data_loop response (index + 1) st)
      else Some (Inr None, st))"

declare process_data_loop.simps [code]

definition process_data_response :: "bytes \<Rightarrow> string option run" where
  "process_data_response response st =
     process_data_loop response 0 (say (Debug (ProcessingData response)) st)"

section \<open>\<open>check_response\<close>\<close>

text \<open>What the loop does after a frame: the method returns a value, or the loop goes on.\<close>

datatype flow = Return "string option" | Next

text \<open>The delay since the command was entered is logged when a start time is set.\<close>

definition log_delay :: "unit run" where
  "log_delay st =
     (if start_time st \<noteq> None \<and> start_time st \<noteq> Some 0 then emit (Info Delay) st
      else emit (Warning NoStartTime) st)"

definition send_eot :: "unit run" where
  "send_eot = seq (emit (Debug SendingEOT)) (\<lambda>_. ser_write [EOT])"

text \<open>
  The treatment of a frame whose checksum is right, by its command code, the first two
  characters: success (\<open>A0\<close>), failure (\<open>A2\<close>), anything else.
\<close>

definition handle_frame :: "bool \<Rightarrow> string \<Rightarrow> flow run" where
  "handle_frame expect_response command_and_data =
     (let command_code = take 2 command_and_data
      in if command_code = ''A0'' then
           seq log_delay (\<lambda>_.
           seq (emit (Info ReceivedSuccess)) (\<lambda>_.
           if expect_response then
             seq (emit (Debug SendingAck)) (\<lambda>_.
             seq (ser_write [ACK]) (\<lambda>_.
             seq (ser_read 100) (\<lambda>data_response.
             if data_response \<noteq> [] then
               seq (emit (Debug (ReceivedData data_response))) (\<lambda>_.
               seq (process_data_response data_response) (\<lambda>data_str.
               seq send_eot (\<lambda>_.
               return (Return data_str))))
             else
               seq (emit (Warning NoDataResponse)) (\<lambda>_.
               seq send_eot (\<lambda>_.
               return Next)))))
           else
             seq send_eot (\<lambda>_. return Next)))
         else if command_code = ''A2'' then
           seq log_delay (\<lambda>_.
           seq (emit (Info ReceivedFailure)) (\<lambda>_.
           seq (ser_write [EOT]) (\<lambda>_.
           return Next)))
         else
           seq (emit (Info (ReceivedOther command_code command_and_data))) (\<lambda>_. return Next))"

partial_function (option) check_response_loop ::
  "bytes \<Rightarrow> bool \<Rightarrow> int \<Rightarrow> controller \<Rightarrow> ((pyerror + string option) \<times> controller) option"
where
  "check_response_loop response expect_response index st =
     (if index < int (length response) then
        (case py_index response index of
           Inl e \<Rightarrow> Some (Inl e, st)
         | Inr b \<Rightarrow>
             if b = STX then
               (case read_frame InResponse response (index + 1) of
                  Stop w \<Rightarrow> Some (Inr None, say (Warning w) st)
                | Fault e \<Rightarrow> Some (Inl e, st)
                | Skip w index' \<Rightarrow>
                    check_response_loop response expect_response index' (say (Warning w) st)
                | Frame index' command_and_data \<Rightarrow>
                    (case handle_frame expect_response command_and_data st of
                       None \<Rightarrow> None
                     | Some (Inl e, st') \<Rightarrow> Some (Inl e, st')
                     | Some (Inr (Return r), st') \<Rightarrow> Some (Inr r, st')
                     | Some (Inr Next, st') \<Rightarrow>
                         check_response_loop response expect_response index' st'))
             else check_response_loop response expect_response (index + 1) st)
      else Some (Inr None, st))"

declare check_response_loop.simps [code]

definition check_response :: "bytes \<Rightarrow> bool \<Rightarrow> string option run" where
  "check_response response expect_response st =
     check_response_loop response expect_response 0 (say (Debug (RawResponse response)) st)"

section \<open>\<open>send_command\<close>\<close>

text \<open>\<open>try\<close> with one \<open>except\<close> clause: the handler runs on the exceptions that it names.\<close>

definition try_except :: "'a run \<Rightarrow> (pyerror \<Rightarrow> bool) \<Rightarrow> 'a run \<Rightarrow> 'a run" where
  "try_except body caught handler st =
     (case body st of
        None \<Rightarrow> None
      | Some (Inl e, st') \<Rightarrow> if caught e then handler st' else Some (Inl e, st')
      | Some (Inr x, st') \<Rightarrow> Some (Inr x, st'))"

text \<open>The \<open>try\<close> block: the handshake, the packet, the response.\<close>

definition send_command_try :: "string \<Rightarrow> string \<Rightarrow> bool \<Rightarrow> string option run" where
  "send_command_try command_code data expect_response =
     seq (ser_write [ENQ]) (\<lambda>_.
     seq (emit (Debug SentENQ)) (\<lambda>_.
     seq (ser_read 1) (\<lambda>ack_response.
     if ack_response \<noteq> [ACK] then
       seq (emit (Warning NoAckAfterENQ)) (\<lambda>_. return None)
     else
       seq (emit (Debug ReceivedAck)) (\<lambda>_.
       case packet command_code data of
         Inl e \<Rightarrow> raise e
       | Inr pkt \<Rightarrow>
           seq (emit (Debug (SentPacket pkt))) (\<lambda>_.
           seq (ser_write pkt) (\<lambda>_.
           seq (ser_read 100) (\<lambda>response.
           if response \<noteq> [] then check_response response expect_response
           else seq (emit (Warning NoResponse)) (\<lambda>_. return None))))))))"

definition send_command :: "string \<Rightarrow> string \<Rightarrow> bool \<Rightarrow> string option run" where
  "send_command command_code data expect_response st =
     (if ser st \<noteq> None then
        try_except (send_command_try command_code data expect_response)
          (\<lambda>e. e = SerialException)
          (seq (emit (Error CommunicationError)) (\<lambda>_. return None)) st
      else
        seq (emit (Info SimulatedSent)) (\<lambda>_.
        seq (emit (Info SimulatedResponse)) (\<lambda>_. return None)) st)"

section \<open>\<open>parse_read_values\<close>\<close>

text \<open>
  The method logs the three values or one error and returns nothing; every exception is
  caught in it. The only one that can arise is the \<open>ValueError\<close> of \<open>int\<close>.
\<close>

definition parse_read_values :: "string \<Rightarrow> controller \<Rightarrow> controller" where
  "parse_read_values data_str st =
     (if startswith data_str ''D0'' then
        let index = 2
        in if py_slice data_str index (index + 2) = ''PD'' then
             let index = index + 2;
                 pressure_value = py_slice data_str index (index + 4);
                 index = index + 4
             in case py_int 10 pressure_value of
                  None \<Rightarrow> say (Error ParseError) st
                | Some p \<Rightarrow>
                    let pressure = fdiv (of_int p) 10
                    in if py_slice data_str index (index + 2) = ''DT'' then
                         let index = index + 2;
                             time_value = py_slice data_str index (index + 5);
                             index = index + 5
                         in case py_int 10 time_value of
                              None \<Rightarrow> say (Error ParseError) st
                            | Some t \<Rightarrow>
                                let time_sec = fdiv (of_int t) 10000
                                in if py_slice data_str index (index + 2) = ''VC'' then
                                     let index = index + 2;
                                         vacuum_value = py_slice data_str index (index + 4)
                                     in case py_int 10 vacuum_value of
                                          None \<Rightarrow> say (Error ParseError) st
                                        | Some v \<Rightarrow>
                                            let vacuum = fdiv (of_int v) 10
                                            in say (Info (Vacuum vacuum))
                                                 (say (Info (Time time_sec))
                                                    (say (Info (Pressure pressure)) st))
                                   else say (Error (Missing ''VC'')) st
                       else say (Error (Missing ''DT'')) st
           else say (Error (Missing ''PD'')) st
      else say (Error (Missing ''D0'')) st)"

section \<open>\<open>dispenser_callback\<close>\<close>

text \<open>
  The bodies of the branches for a pressure, a vacuum, a dispense time and a memory
  location, from the range check on. The bound \<open>9.9999\<close> is the binary64 number nearest
  to it.
\<close>

definition set_pressure :: "pyfloat \<Rightarrow> unit run" where
  "set_pressure pressure_value =
     (case pressure_value of
        Finite x \<Rightarrow>
          if 0 \<le> x \<and> x \<le> 100 then
            let formatted_pressure = format_int 10 4 (int_of_float (fmul x 10))
            in seq (send_command ''PS  '' formatted_pressure False) (\<lambda>_. return ())
          else emit (Error (InvalidPressure pressure_value))
      | _ \<Rightarrow> emit (Error (InvalidPressure pressure_value)))"

definition set_vacuum :: "pyfloat \<Rightarrow> unit run" where
  "set_vacuum vacuum_value =
     (case vacuum_value of
        Finite x \<Rightarrow>
          if 0 \<le> x \<and> x \<le> 18 then
            let formatted_vacuum = format_int 10 4 (int_of_float (fmul x 10))
            in seq (send_command ''VS  '' formatted_vacuum False) (\<lambda>_. return ())
          else emit (Error (InvalidVacuum vacuum_value))
      | _ \<Rightarrow> emit (Error (InvalidVacuum vacuum_value)))"

definition set_dispense_time :: "pyfloat \<Rightarrow> unit run" where
  "set_dispense_time time_value =
     (case time_value of
        Finite x \<Rightarrow>
          if 0 \<le> x \<and> x \<le> round64 (99999 / 10000) then
            let formatted_time =
                  (if x < 1 then CHR ''T'' # format_int 10 4 (int_of_float (fmul x 10000))
                   else CHR ''T'' # format_int 10 5 (int_of_float (fmul x 10000)))
            in seq (send_command ''DS  '' formatted_time False) (\<lambda>_. return ())
          else emit (Error (InvalidTime time_value))
      | _ \<Rightarrow> emit (Error (InvalidTime time_value)))"

definition read_values :: "int \<Rightarrow> unit run" where
  "read_values memory_location =
     (if 0 \<le> memory_location \<and> memory_location \<le> 399 then
        let memory_location_str = format_int 10 3 memory_location
        in seq (send_command ''E8'' memory_location_str True) (\<lambda>response_data.
           case response_data of
             None \<Rightarrow> return ()
           | Some d \<Rightarrow> if d \<noteq> [] then (\<lambda>st. return () (parse_read_values d st)) else return ())
      else emit (Error (InvalidMemoryLocation memory_location)))"

definition pressure_units_map :: "(string \<times> string) list" where
  "pressure_units_map = [(''psi'', ''00''), (''bar'', ''01''), (''kpa'', ''02'')]"

definition vacuum_units_map :: "(string \<times> string) list" where
  "vacuum_units_map =
     [(''kpa'', ''00''), (''inches_h2o'', ''01''), (''inches_hg'', ''02''), (''mmhg'', ''03''),
      (''torr'', ''04'')]"

text \<open>The assignment to \<open>is_timed_mode\<close> in the branch of \<open>toggle_mode\<close>.\<close>

definition toggle :: "unit run" where
  "toggle st =
     (if is_timed_mode st then emit (Info SwitchedToSteady) (st\<lparr>is_timed_mode := False\<rparr>)
      else emit (Info SwitchedToTimed) (st\<lparr>is_timed_mode := True\<rparr>))"

text \<open>The second field of the command line, \<open>command_str.split(' ')[1]\<close>.\<close>

definition argument :: "string \<Rightarrow> pyerror + string" where
  "argument command_str = py_index (split_on CHR '' '' command_str) 1"

definition dispenser_callback :: "string \<Rightarrow> unit run" where
  "dispenser_callback command_str =
     (if command_str = ''start'' then
        seq (send_command ''DI  '' [] False) (\<lambda>_. return ())
      else if command_str = ''stop'' then
        seq (send_command ''DI  '' [] False) (\<lambda>_. return ())
      else if startswith command_str ''pressure '' then
        try_except
          (case argument command_str of
             Inl e \<Rightarrow> raise e
           | Inr a \<Rightarrow>
               (case py_float a of
                  None \<Rightarrow> raise ValueError
                | Some pressure_value \<Rightarrow> set_pressure pressure_value))
          (\<lambda>e. e = IndexError \<or> is_ValueError e)
          (emit (Error BadPressureCommand))
      else if startswith command_str ''vacuum '' then
        try_except
          (case argument command_str of
             Inl e \<Rightarrow> raise e
           | Inr a \<Rightarrow>
               (case py_float a of
                  None \<Rightarrow> raise ValueError
                | Some vacuum_value \<Rightarrow> set_vacuum vacuum_value))
          (\<lambda>e. e = IndexError \<or> is_ValueError e)
          (emit (Error BadVacuumCommand))
      else if command_str = ''toggle_mode'' then
        seq (send_command ''TM  '' [] False) (\<lambda>_. toggle)
      else if startswith command_str ''time '' then
        try_except
          (case argument command_str of
             Inl e \<Rightarrow> raise e
           | Inr a \<Rightarrow>
               (case py_float a of
                  None \<Rightarrow> raise ValueError
                | Some time_value \<Rightarrow> set_dispense_time time_value))
          (\<lambda>e. e = IndexError \<or> is_ValueError e)
          (emit (Error BadTimeCommand))
      else if startswith command_str ''read_values'' then
        try_except
          (let parts = split_on CHR '' '' command_str
           in case (if length parts = 2 then py_int 10 (parts ! 1) else Some 0) of
                None \<Rightarrow> raise ValueError
              | Some memory_location \<Rightarrow> read_values memory_location)
          is_ValueError
          (emit (Error BadMemoryLocation))
      else if startswith command_str ''set_pressure_units '' then
        try_except
          (case argument command_str of
             Inl e \<Rightarrow> raise e
           | Inr a \<Rightarrow>
               let unit = lower a
               in (case map_of pressure_units_map unit of
                     Some units_code \<Rightarrow>
                       seq (send_command ''E6  '' units_code False) (\<lambda>_. return ())
                   | None \<Rightarrow> emit (Error (InvalidPressureUnit unit))))
          (\<lambda>e. e = IndexError)
          (emit (Error BadPressureUnitsCommand))
      else if startswith command_str ''set_vacuum_units '' then
        try_except
          (case argument command_str of
             Inl e \<Rightarrow> raise e
           | Inr a \<Rightarrow>
               let unit = lower a
               in (case map_of vacuum_units_map unit of
                     Some units_code \<Rightarrow>
                       seq (send_command ''E7  '' units_code False) (\<lambda>_. return ())
                   | None \<Rightarrow> emit (Error (InvalidVacuumUnit unit))))
          (\<lambda>e. e = IndexError)
          (emit (Error BadVacuumUnitsCommand))
      else emit (Error (UnknownCommand command_str)))"

section \<open>Notions used in the statements\<close>

text \<open>
  A frame on the wire with the given command and data, and the given value in its checksum
  field; \<open>checksum_of\<close> is the checksum that belongs in the field.
\<close>

definition frame_of :: "string \<Rightarrow> int \<Rightarrow> bytes" where
  "frame_of payload k =
     STX # format_int 16 2 (int (length payload)) @ payload @ format_int 16 2 k @ [ETX]"

definition checksum_of :: "string \<Rightarrow> pyerror + int" where
  "checksum_of payload =
     calculate_checksum_ascii (format_int 16 2 (int (length payload)) @ payload)"

text \<open>
  A frame with the right length field and any octets in the place of the checksum field.
\<close>

definition frame_with :: "string \<Rightarrow> bytes \<Rightarrow> bytes" where
  "frame_with payload field =
     STX # format_int 16 2 (int (length payload)) @ payload @ field @ [ETX]"

text \<open>
  What \<open>check_response\<close> returns when the frame just treated was the last thing in the
  buffer.
\<close>

definition last_frame ::
  "((pyerror + flow) \<times> controller) option \<Rightarrow> ((pyerror + string option) \<times> controller) option"
where
  "last_frame r =
     (case r of
        None \<Rightarrow> None
      | Some (Inl e, st) \<Rightarrow> Some (Inl e, st)
      | Some (Inr (Return v), st) \<Rightarrow> Some (Inr v, st)
      | Some (Inr Next, st) \<Rightarrow> Some (Inr None, st))"

text \<open>
  The rounding of the specification, \<open>round(value * 10)\<close>: the nearest integer, a tie to
  the even one. The code does not use it; it is here to be compared with \<open>int_of_float\<close>.
\<close>

definition py_round :: "rat \<Rightarrow> int" where
  "py_round x = (case quotient_of x of (n, d) \<Rightarrow> round_half_even n d)"


text \<open>A port on which nothing has been written, with what the device will deliver.\<close>

definition port :: "rx_event list \<Rightarrow> serial" where
  "port r = \<lparr>tx = [], rx = r, tx_faults = []\<rparr>"

section \<open>Evaluation and basic facts\<close>

lemma replicate_small:
  "replicate 1 x = [x]" "replicate 2 x = [x, x]" "replicate 3 x = [x, x, x]"
  "replicate 4 x = [x, x, x, x]"
  by (simp_all add: numeral_eq_Suc)

lemmas eval_format = format_int_def digits_of.simps digit_char_def replicate_small

lemmas eval_checksum = calculate_checksum_ascii_def encode_ascii_def is_ascii_def code_def

lemmas eval_int = py_int_def strip_sign_def strip_prefix_def py_isspace_def to_ascii_def
  digit_value_def number_of_def

lemmas eval_run = seq_def return_def raise_def emit_def say_def ser_write_def ser_read_def
  port_write_def port_read_def try_except_def

lemmas eval_frame = read_frame_def py_slice_def clip_def py_index_def decode_ascii_ignore_def
  STX_def ETX_def EOT_def ENQ_def ACK_def

lemma and_255_mod: "(x::int) AND 0xFF = x mod 256"
proof -
  have "x AND mask 8 = x mod 2 ^ 8"
    by (simp only: take_bit_eq_mod flip: take_bit_eq_mask)
  then show ?thesis
    by (simp add: mask_eq_exp_minus_1)
qed

lemma checksum_ascii:
  "list_all is_ascii s \<Longrightarrow>
     calculate_checksum_ascii s = Inr ((- (\<Sum>c\<leftarrow>s. int (code c))) mod 256)"
  by (simp add: calculate_checksum_ascii_def encode_ascii_def and_255_mod)

section \<open>Frames in a buffer\<close>

lemma py_slice_middle:
  "i = int (length xs) \<Longrightarrow> j = i + int (length ys) \<Longrightarrow> py_slice (xs @ ys @ zs) i j = ys"
  by (simp add: py_slice_def clip_def min_def)

lemma py_index_middle:
  "i = int (length xs) \<Longrightarrow> py_index (xs @ y # zs) i = Inr y"
  by (simp add: py_index_def)

lemma decode_ascii: "list_all is_ascii s \<Longrightarrow> decode_ascii_ignore s = s"
  by (simp add: decode_ascii_ignore_def list_all_iff)

lemma digit_char_cases:
  assumes "a < 16"
  shows "digit_char a \<in> set ''0123456789ABCDEF''"
proof -
  from assms have "a = 0 \<or> a = 1 \<or> a = 2 \<or> a = 3 \<or> a = 4 \<or> a = 5 \<or> a = 6 \<or> a = 7
      \<or> a = 8 \<or> a = 9 \<or> a = 10 \<or> a = 11 \<or> a = 12 \<or> a = 13 \<or> a = 14 \<or> a = 15"
    by arith
  then show ?thesis by (elim disjE) (simp_all add: digit_char_def)
qed

lemma hex_char_facts:
  assumes "c \<in> set ''0123456789ABCDEF''"
  shows "is_ascii c" "to_ascii c = c" "\<not> py_isspace c" "c \<noteq> CHR ''+''" "c \<noteq> CHR ''-''"
    "c \<noteq> CHR ''_''" "c \<noteq> CHR ''x''" "c \<noteq> CHR ''X''" "digit_value c < 16"
  using assms by (auto simp: is_ascii_def to_ascii_def py_isspace_def digit_value_def code_def)

lemma digit_value_digit_char: "a < 16 \<Longrightarrow> digit_value (digit_char a) = a"
proof -
  assume "a < 16"
  then have "a = 0 \<or> a = 1 \<or> a = 2 \<or> a = 3 \<or> a = 4 \<or> a = 5 \<or> a = 6 \<or> a = 7
      \<or> a = 8 \<or> a = 9 \<or> a = 10 \<or> a = 11 \<or> a = 12 \<or> a = 13 \<or> a = 14 \<or> a = 15"
    by arith
  then show ?thesis by (elim disjE) (simp_all add: digit_char_def digit_value_def code_def)
qed

lemma py_int_hex2:
  assumes "a < 16" "b < 16"
  shows "py_int 16 [digit_char a, digit_char b] = Some (int (16 * a + b))"
proof -
  note A = hex_char_facts [OF digit_char_cases [OF assms(1)]]
  note B = hex_char_facts [OF digit_char_cases [OF assms(2)]]
  show ?thesis
    using assms
    by (simp add: py_int_def strip_sign_def strip_prefix_def number_of_def A B
        digit_value_digit_char)
qed

lemma digit_char_0: "digit_char 0 = CHR ''0''"
  by (simp add: digit_char_def)

lemma format_hex2:
  assumes "0 \<le> k" "k < 256"
  shows "format_int 16 2 k = [digit_char (nat (k div 16)), digit_char (nat (k mod 16))]"
proof (cases "k < 16")
  case True
  with assms show ?thesis
    by (simp add: format_int_def digits_of.simps [of 16 k] digit_char_0)
next
  case False
  with assms have "k div 16 < 16" "0 \<le> k div 16" by simp_all
  with False assms show ?thesis
    by (simp add: format_int_def digits_of.simps [of 16 k] digits_of.simps [of 16 "k div 16"])
qed

lemma format_hex2_int:
  assumes "0 \<le> k" "k < 256"
  shows "length (format_int 16 2 k) = 2" "list_all is_ascii (format_int 16 2 k)"
    "py_int 16 (format_int 16 2 k) = Some k"
proof -
  from assms have d: "nat (k div 16) < 16" "nat (k mod 16) < 16" by simp_all
  from assms have "0 \<le> k div 16" by (simp add: pos_imp_zdiv_nonneg_iff)
  with assms have v: "int (16 * nat (k div 16) + nat (k mod 16)) = k" by simp
  show "length (format_int 16 2 k) = 2"
    by (simp add: format_hex2 assms)
  show "list_all is_ascii (format_int 16 2 k)"
    by (simp add: format_hex2 assms hex_char_facts(1) [OF digit_char_cases] d)
  show "py_int 16 (format_int 16 2 k) = Some k"
    using py_int_hex2 [OF d] v by (simp add: format_hex2 assms)
qed

lemma format_hex2_props:
  assumes "n < 256"
  shows "length (format_int 16 2 (int n)) = 2" "list_all is_ascii (format_int 16 2 (int n))"
    "py_int 16 (format_int 16 2 (int n)) = Some (int n)"
  using format_hex2_int [of "int n"] assms by simp_all

lemma slice_length_field:
  assumes "i = int (length pre) + 1" "j = i + 2" "length L = 2"
  shows "py_slice (pre @ STX # L @ rest) i j = L"
  using py_slice_middle [of i "pre @ [STX]" j L rest] assms by simp

lemma slice_payload:
  assumes "i = int (length pre) + 3" "j = i + int (length P)" "length L = 2"
  shows "py_slice (pre @ STX # L @ P @ rest) i j = P"
  using py_slice_middle [of i "pre @ [STX] @ L" j P rest] assms by simp

lemma slice_checksum_field:
  assumes "i = int (length pre) + 3 + int (length P)" "j = i + 2" "length L = 2" "length H = 2"
  shows "py_slice (pre @ STX # L @ P @ H @ rest) i j = H"
  using py_slice_middle [of i "pre @ [STX] @ L @ P" j H rest] assms by simp

lemma index_etx:
  assumes "i = int (length pre) + 5 + int (length P)" "length L = 2" "length H = 2"
  shows "py_index (pre @ STX # L @ P @ H @ y # post) i = Inr y"
  using py_index_middle [of i "pre @ [STX] @ L @ P @ H" y post] assms by simp

lemma read_frame_at:
  assumes L: "length L = 2" "list_all is_ascii L" "py_int 16 L = Some (int (length P))"
    and P: "list_all is_ascii P"
    and H: "length H = 2" "list_all is_ascii H"
    and k: "calculate_checksum_ascii (L @ P) = Inr k"
    and i: "index = int (length pre) + 1"
  shows "read_frame p (pre @ STX # L @ P @ H @ ETX # post) index =
     (case py_int 16 H of
        None \<Rightarrow> Skip (InvalidChecksum p) (index + int (length P) + 5)
      | Some k' \<Rightarrow>
          if k' \<noteq> k then Skip (ChecksumMismatch p) (index + int (length P) + 5)
          else Frame (index + int (length P) + 5) P)"
  unfolding i
  by (simp add: read_frame_def Let_def slice_length_field slice_payload slice_checksum_field
      index_etx decode_ascii L P H k split: option.split)


lemma check_response_loop_end:
  "int (length response) \<le> index \<Longrightarrow>
     check_response_loop response e index st = Some (Inr None, st)"
  by (subst check_response_loop.simps) simp

lemma process_data_loop_end:
  "int (length response) \<le> index \<Longrightarrow> process_data_loop response index st = Some (Inr None, st)"
  by (subst process_data_loop.simps) simp

lemma check_response_loop_stx:
  assumes "index < int (length response)" "py_index response index = Inr STX"
  shows "check_response_loop response e index st =
     (case read_frame InResponse response (index + 1) of
        Stop w \<Rightarrow> Some (Inr None, say (Warning w) st)
      | Fault x \<Rightarrow> Some (Inl x, st)
      | Skip w index' \<Rightarrow> check_response_loop response e index' (say (Warning w) st)
      | Frame index' command_and_data \<Rightarrow>
          (case handle_frame e command_and_data st of
             None \<Rightarrow> None
           | Some (Inl x, st') \<Rightarrow> Some (Inl x, st')
           | Some (Inr (Return r), st') \<Rightarrow> Some (Inr r, st')
           | Some (Inr Next, st') \<Rightarrow> check_response_loop response e index' st'))"
  by (subst check_response_loop.simps) (simp add: assms)

lemma process_data_loop_stx:
  assumes "index < int (length response)" "py_index response index = Inr STX"
  shows "process_data_loop response index st =
     (case read_frame InDataResponse response (index + 1) of
        Stop w \<Rightarrow> Some (Inr None, say (Warning w) st)
      | Fault x \<Rightarrow> Some (Inl x, st)
      | Skip w index' \<Rightarrow> process_data_loop response index' (say (Warning w) st)
      | Frame index' command_and_data \<Rightarrow>
          Some (Inr (Some command_and_data), say (Debug (CommandAndData command_and_data)) st))"
  by (subst process_data_loop.simps) (simp add: assms)

text \<open>A well-formed frame: length field, payload, checksum field.\<close>

lemma frame_fields:
  assumes "list_all is_ascii P" "length P \<le> 255"
  defines "L \<equiv> format_int 16 2 (int (length P))"
  shows "length L = 2" "list_all is_ascii L" "py_int 16 L = Some (int (length P))"
    "\<exists>k. calculate_checksum_ascii (L @ P) = Inr k \<and> 0 \<le> k \<and> k < 256"
proof -
  from assms(2) have n: "length P < 256" by simp
  show "length L = 2" "list_all is_ascii L" "py_int 16 L = Some (int (length P))"
    unfolding L_def by (rule format_hex2_props [OF n])+
  then show "\<exists>k. calculate_checksum_ascii (L @ P) = Inr k \<and> 0 \<le> k \<and> k < 256"
    using assms(1) by (simp add: checksum_ascii)
qed

lemma packet_ascii:
  assumes "list_all is_ascii c" "list_all is_ascii d" "length c + length d \<le> 255"
  shows "\<exists>k. calculate_checksum_ascii (format_int 16 2 (int (length (c @ d))) @ c @ d) = Inr k
           \<and> 0 \<le> k \<and> k < 256
           \<and> packet c d = Inr (STX # format_int 16 2 (int (length (c @ d))) @ (c @ d)
                                  @ format_int 16 2 k @ [ETX])"
proof -
  from assms have "list_all is_ascii (c @ d)" "length (c @ d) \<le> 255" by simp_all
  from frame_fields(4) [OF this] obtain k
    where "calculate_checksum_ascii (format_int 16 2 (int (length (c @ d))) @ c @ d) = Inr k"
      "0 \<le> k" "k < 256" by auto
  then show ?thesis by (auto simp: packet_def Let_def)
qed


lemma packet_frame_of:
  assumes "list_all is_ascii c" "list_all is_ascii d" "length c + length d \<le> 255"
  shows "\<exists>k. checksum_of (c @ d) = Inr k \<and> 0 \<le> k \<and> k < 256 \<and> packet c d = Inr (frame_of (c @ d) k)"
  using packet_ascii [OF assms] by (auto simp: frame_of_def checksum_of_def)

lemma length_frame_of:
  "length P \<le> 255 \<Longrightarrow> 0 \<le> k \<Longrightarrow> k < 256 \<Longrightarrow> length (frame_of P k) = length P + 6"
  using format_hex2_props(1) [of "length P"] format_hex2_int(1) [of k]
  by (simp add: frame_of_def)

lemma read_frame_frame_of:
  assumes P: "list_all is_ascii P" "length P \<le> 255"
    and k: "checksum_of P = Inr k"
    and k': "0 \<le> k'" "k' < 256"
    and i: "index = int (length pre) + 1"
  shows "read_frame p (pre @ frame_of P k' @ post) index =
     (if k' \<noteq> k then Skip (ChecksumMismatch p) (int (length pre) + int (length P) + 6)
      else Frame (int (length pre) + int (length P) + 6) P)"
proof -
  let ?L = "format_int 16 2 (int (length P))"
  let ?H = "format_int 16 2 k'"
  have shape: "pre @ frame_of P k' @ post = pre @ STX # ?L @ P @ ?H @ ETX # post"
    by (simp add: frame_of_def)
  note F = frame_fields(1-3) [OF P]
  note G = format_hex2_int [OF k']
  show ?thesis
    unfolding shape
    using read_frame_at [OF F P(1) G(1,2) k [unfolded checksum_of_def] i, of p post]
    by (simp add: G(3) i)
qed

lemma index_frame_of:
  "index = int (length pre) \<Longrightarrow> py_index (pre @ frame_of P k @ post) index = Inr STX"
  by (simp add: frame_of_def py_index_middle)

lemma check_response_loop_frame_of:
  assumes P: "list_all is_ascii P" "length P \<le> 255"
    and k: "checksum_of P = Inr k"
    and k': "0 \<le> k'" "k' < 256"
    and i: "index = int (length pre)"
  shows "check_response_loop (pre @ frame_of P k' @ post) e index st =
     (if k' \<noteq> k
      then check_response_loop (pre @ frame_of P k' @ post) e (int (length pre) + int (length P) + 6)
             (say (Warning (ChecksumMismatch InResponse)) st)
      else (case handle_frame e P st of
              None \<Rightarrow> None
            | Some (Inl x, st') \<Rightarrow> Some (Inl x, st')
            | Some (Inr (Return r), st') \<Rightarrow> Some (Inr r, st')
            | Some (Inr Next, st') \<Rightarrow>
                check_response_loop (pre @ frame_of P k' @ post) e
                  (int (length pre) + int (length P) + 6) st'))"
proof -
  have lt: "index < int (length (pre @ frame_of P k' @ post))"
    using length_frame_of [OF P(2) k'] i by simp
  have rf: "read_frame InResponse (pre @ frame_of P k' @ post) (index + 1) =
     (if k' \<noteq> k then Skip (ChecksumMismatch InResponse) (int (length pre) + int (length P) + 6)
      else Frame (int (length pre) + int (length P) + 6) P)"
    by (rule read_frame_frame_of [OF P k k']) (simp add: i)
  show ?thesis
    by (simp add: check_response_loop_stx [OF lt index_frame_of [OF i]] rf)
qed

lemma process_data_loop_frame_of:
  assumes P: "list_all is_ascii P" "length P \<le> 255"
    and k: "checksum_of P = Inr k"
    and k': "0 \<le> k'" "k' < 256"
    and i: "index = int (length pre)"
  shows "process_data_loop (pre @ frame_of P k' @ post) index st =
     (if k' \<noteq> k
      then process_data_loop (pre @ frame_of P k' @ post) (int (length pre) + int (length P) + 6)
             (say (Warning (ChecksumMismatch InDataResponse)) st)
      else Some (Inr (Some P), say (Debug (CommandAndData P)) st))"
proof -
  have lt: "index < int (length (pre @ frame_of P k' @ post))"
    using length_frame_of [OF P(2) k'] i by simp
  have rf: "read_frame InDataResponse (pre @ frame_of P k' @ post) (index + 1) =
     (if k' \<noteq> k then Skip (ChecksumMismatch InDataResponse) (int (length pre) + int (length P) + 6)
      else Frame (int (length pre) + int (length P) + 6) P)"
    by (rule read_frame_frame_of [OF P k k']) (simp add: i)
  show ?thesis
    by (simp add: process_data_loop_stx [OF lt index_frame_of [OF i]] rf)
qed

text \<open>
  What \<open>read_frame\<close> does at an STX, by the octets behind it: too few for a length field,
  a length field that \<open>int\<close> rejects, a length that reaches beyond the buffer, no ETX
  where the length puts it, and a whole frame with any two octets as its checksum field.
\<close>

lemma read_frame_short:
  assumes "length t < 2" "index = int (length pre) + 1"
  shows "read_frame p (pre @ STX # t) index = Stop (IncompleteLength p)"
  using assms by (simp add: read_frame_def)

lemma read_frame_bad_length:
  assumes "length L = 2" "py_int 16 (decode_ascii_ignore L) = None"
    "index = int (length pre) + 1"
  shows "read_frame p (pre @ STX # L @ rest) index = Stop (InvalidLength p)"
  using assms by (simp add: read_frame_def Let_def slice_length_field)

lemma read_frame_short_data:
  assumes "length L = 2" "py_int 16 (decode_ascii_ignore L) = Some n"
    "int (length rest) < n + 2" "index = int (length pre) + 1"
  shows "read_frame p (pre @ STX # L @ rest) index = Stop (IncompleteData p)"
  using assms by (simp add: read_frame_def Let_def slice_length_field)

lemma read_frame_no_etx:
  assumes "length L = 2" "py_int 16 (decode_ascii_ignore L) = Some (int (length P))"
    "length H = 2" "post = [] \<or> hd post \<noteq> ETX" "index = int (length pre) + 1"
  shows "read_frame p (pre @ STX # L @ P @ H @ post) index = Stop (MissingETX p)"
proof (cases post)
  case Nil
  with assms show ?thesis
    by (simp add: read_frame_def Let_def slice_length_field)
next
  case (Cons y ys)
  with assms have y: "y \<noteq> ETX" by simp
  have "py_index (pre @ STX # L @ P @ H @ y # ys) (int (length pre) + 5 + int (length P)) = Inr y"
    by (rule index_etx) (simp_all add: assms)
  then have "py_index (pre @ STX # L @ P @ H @ y # ys) (int (length pre) + 1 + 2 + int (length P) + 2) = Inr y"
    by (simp add: add.commute add.left_commute)
  with assms y Cons show ?thesis
    by (simp add: read_frame_def Let_def slice_length_field)
qed

lemma read_frame_field:
  assumes P: "list_all is_ascii P" "length P \<le> 255"
    and k: "checksum_of P = Inr k"
    and H: "length H = 2"
    and i: "index = int (length pre) + 1"
  shows "read_frame p (pre @ frame_with P H @ post) index =
     (case py_int 16 (decode_ascii_ignore H) of
        None \<Rightarrow> Skip (InvalidChecksum p) (int (length pre) + int (length P) + 6)
      | Some k' \<Rightarrow>
          if k' \<noteq> k then Skip (ChecksumMismatch p) (int (length pre) + int (length P) + 6)
          else Frame (int (length pre) + int (length P) + 6) P)"
proof -
  let ?L = "format_int 16 2 (int (length P))"
  note F = frame_fields(1-3) [OF P]
  show ?thesis
    unfolding i frame_with_def
    using k [unfolded checksum_of_def]
    by (simp add: read_frame_def Let_def slice_length_field slice_payload slice_checksum_field
      index_etx decode_ascii F P H split: option.split)
qed


lemma length_frame_with:
  "length P \<le> 255 \<Longrightarrow> length H = 2 \<Longrightarrow> length (frame_with P H) = length P + 6"
  using format_hex2_props(1) [of "length P"] by (simp add: frame_with_def)

lemma frame_of_frame_with: "frame_of P k = frame_with P (format_int 16 2 k)"
  by (simp add: frame_of_def frame_with_def)

lemma check_response_loop_at_stx:
  "check_response_loop (pre @ STX # rest) e (int (length pre)) st =
     (case read_frame InResponse (pre @ STX # rest) (int (length pre) + 1) of
        Stop w \<Rightarrow> Some (Inr None, say (Warning w) st)
      | Fault x \<Rightarrow> Some (Inl x, st)
      | Skip w index' \<Rightarrow> check_response_loop (pre @ STX # rest) e index' (say (Warning w) st)
      | Frame index' command_and_data \<Rightarrow>
          (case handle_frame e command_and_data st of
             None \<Rightarrow> None
           | Some (Inl x, st') \<Rightarrow> Some (Inl x, st')
           | Some (Inr (Return r), st') \<Rightarrow> Some (Inr r, st')
           | Some (Inr Next, st') \<Rightarrow> check_response_loop (pre @ STX # rest) e index' st'))"
  by (rule check_response_loop_stx) (simp_all add: py_index_middle)

lemma process_data_loop_at_stx:
  "process_data_loop (pre @ STX # rest) (int (length pre)) st =
     (case read_frame InDataResponse (pre @ STX # rest) (int (length pre) + 1) of
        Stop w \<Rightarrow> Some (Inr None, say (Warning w) st)
      | Fault x \<Rightarrow> Some (Inl x, st)
      | Skip w index' \<Rightarrow> process_data_loop (pre @ STX # rest) index' (say (Warning w) st)
      | Frame index' command_and_data \<Rightarrow>
          Some (Inr (Some command_and_data), say (Debug (CommandAndData command_and_data)) st))"
  by (rule process_data_loop_stx) (simp_all add: py_index_middle)

lemma check_response_loop_field:
  assumes "list_all is_ascii P" "length P \<le> 255" "checksum_of P = Inr k" "length H = 2"
    "py_int 16 (decode_ascii_ignore H) \<noteq> Some k"
  shows "check_response_loop (pre @ frame_with P H @ post) e (int (length pre)) st =
     check_response_loop (pre @ frame_with P H @ post) e (int (length pre) + int (length P) + 6)
       (say (Warning (if py_int 16 (decode_ascii_ignore H) = None then InvalidChecksum InResponse
                      else ChecksumMismatch InResponse)) st)"
proof -
  have shape: "pre @ frame_with P H @ post = pre @ STX # tl (frame_with P H) @ post"
    by (simp add: frame_with_def)
  have rf: "read_frame InResponse (pre @ STX # tl (frame_with P H) @ post) (int (length pre) + 1) =
     (case py_int 16 (decode_ascii_ignore H) of
        None \<Rightarrow> Skip (InvalidChecksum InResponse) (int (length pre) + int (length P) + 6)
      | Some k' \<Rightarrow>
          if k' \<noteq> k then Skip (ChecksumMismatch InResponse) (int (length pre) + int (length P) + 6)
          else Frame (int (length pre) + int (length P) + 6) P)"
    using read_frame_field [OF assms(1-4) refl, of InResponse pre post] by (simp add: shape)
  show ?thesis
    unfolding shape check_response_loop_at_stx rf
    using assms(5) by (cases "py_int 16 (decode_ascii_ignore H)") simp_all
qed

lemma process_data_loop_field:
  assumes "list_all is_ascii P" "length P \<le> 255" "checksum_of P = Inr k" "length H = 2"
    "py_int 16 (decode_ascii_ignore H) \<noteq> Some k"
  shows "process_data_loop (pre @ frame_with P H @ post) (int (length pre)) st =
     process_data_loop (pre @ frame_with P H @ post) (int (length pre) + int (length P) + 6)
       (say (Warning (if py_int 16 (decode_ascii_ignore H) = None then InvalidChecksum InDataResponse
                      else ChecksumMismatch InDataResponse)) st)"
proof -
  have shape: "pre @ frame_with P H @ post = pre @ STX # tl (frame_with P H) @ post"
    by (simp add: frame_with_def)
  have rf: "read_frame InDataResponse (pre @ STX # tl (frame_with P H) @ post) (int (length pre) + 1) =
     (case py_int 16 (decode_ascii_ignore H) of
        None \<Rightarrow> Skip (InvalidChecksum InDataResponse) (int (length pre) + int (length P) + 6)
      | Some k' \<Rightarrow>
          if k' \<noteq> k then Skip (ChecksumMismatch InDataResponse) (int (length pre) + int (length P) + 6)
          else Frame (int (length pre) + int (length P) + 6) P)"
    using read_frame_field [OF assms(1-4) refl, of InDataResponse pre post] by (simp add: shape)
  show ?thesis
    unfolding shape process_data_loop_at_stx rf
    using assms(5) by (cases "py_int 16 (decode_ascii_ignore H)") simp_all
qed

lemma checksum_of_range:
  "checksum_of P = Inr k \<Longrightarrow> list_all is_ascii P \<Longrightarrow> length P \<le> 255 \<Longrightarrow> 0 \<le> k \<and> k < 256"
  using frame_fields(4) [of P] by (auto simp: checksum_of_def)

lemma check_response_loop_last:
  assumes "list_all is_ascii P" "length P \<le> 255" "checksum_of P = Inr k"
    "index = int (length pre)"
  shows "check_response_loop (pre @ frame_of P k) e index st = last_frame (handle_frame e P st)"
proof -
  note r = checksum_of_range [OF assms(3,1,2)]
  have len: "length (frame_of P k) = length P + 6"
    using length_frame_of [OF assms(2)] r by simp
  show ?thesis
    using check_response_loop_frame_of [OF assms(1,2,3) _ _ assms(4), of k "[]" e st] r len
    by (simp add: last_frame_def check_response_loop_end
        split: option.split sum.split prod.split flow.split)
qed

lemma process_data_loop_last:
  assumes "list_all is_ascii P" "length P \<le> 255" "checksum_of P = Inr k"
    "index = int (length pre)"
  shows "process_data_loop (pre @ frame_of P k) index st =
     Some (Inr (Some P), say (Debug (CommandAndData P)) st)"
proof -
  note r = checksum_of_range [OF assms(3,1,2)]
  show ?thesis
    using process_data_loop_frame_of [OF assms(1,2,3) _ _ assms(4), of k "[]" st] r
    by simp
qed

lemma format_hex2_field:
  assumes "0 \<le> k'" "k' < 256" "k' \<noteq> k"
  shows "length (format_int 16 2 k') = 2"
    "py_int 16 (decode_ascii_ignore (format_int 16 2 k')) \<noteq> Some k"
    "py_int 16 (decode_ascii_ignore (format_int 16 2 k')) \<noteq> None"
  using format_hex2_int [OF assms(1,2)] assms(3) by (simp_all add: decode_ascii)

section \<open>Exchanges with the device\<close>






text \<open>A device that acknowledges and then keeps silent, and a whole cycle of a read.\<close>

lemma send_command_silent:
  assumes "packet c d = Inr pkt"
  shows "send_command c d e (init (Some (port [Rx [ACK]]))) =
    Some (Inr None,
      \<lparr>ser = Some \<lparr>tx = [[ENQ], pkt], rx = [], tx_faults = []\<rparr>, is_timed_mode = True,
         start_time = None,
         logger = [Info Started, Debug SentENQ, Debug ReceivedAck, Debug (SentPacket pkt),
                   Warning NoResponse]\<rparr>)"
  using assms
  by (simp add: send_command_def send_command_try_def eval_run init_def port_def)

lemma packet_E8_000: "packet ''E8'' ''000'' = Inr ([STX] @ ''05E8000'' @ ''8E'' @ [ETX])"
  by (simp add: packet_def eval_format eval_checksum)

lemma read_cycle:
  "send_command ''E8'' ''000'' True
     (init (Some (port [Rx [ACK], Rx (frame_of ''A0'' 45),
                        Rx (frame_of ''D0PD0500DT05000VC0100'' 230)]))) =
   Some (Inr (Some ''D0PD0500DT05000VC0100''),
     \<lparr>ser = Some \<lparr>tx = [[ENQ], [STX] @ ''05E8000'' @ ''8E'' @ [ETX], [ACK], [EOT]], rx = [],
                    tx_faults = []\<rparr>,
        is_timed_mode = True, start_time = None,
        logger = [Info Started, Debug SentENQ, Debug ReceivedAck,
                  Debug (SentPacket ([STX] @ ''05E8000'' @ ''8E'' @ [ETX])),
                  Debug (RawResponse (frame_of ''A0'' 45)), Warning NoStartTime,
                  Info ReceivedSuccess, Debug SendingAck,
                  Debug (ReceivedData (frame_of ''D0PD0500DT05000VC0100'' 230)),
                  Debug (ProcessingData (frame_of ''D0PD0500DT05000VC0100'' 230)),
                  Debug (CommandAndData ''D0PD0500DT05000VC0100''), Debug SendingEOT]\<rparr>)"
  by (simp add: send_command_def send_command_try_def check_response_def
      check_response_loop.simps handle_frame_def process_data_response_def
      process_data_loop.simps log_delay_def send_eot_def frame_of_def packet_def eval_format
      eval_frame eval_int eval_checksum eval_run Let_def init_def port_def)

section \<open>The checksum cancels the sum of the string\<close>

text \<open>
  Claim C3. For every ASCII string \<open>s\<close> the checksum is a value from 0 to 255, and the
  checksum plus the sum of the code points of \<open>s\<close> is 0 modulo 256.
\<close>

theorem checksum_cancels_sum:
  assumes "list_all is_ascii s"
  shows "\<exists>c. calculate_checksum_ascii s = Inr c \<and> 0 \<le> c \<and> c < 256
           \<and> (c + (\<Sum>ch\<leftarrow>s. int (code ch))) mod 256 = 0"
proof -
  let ?S = "\<Sum>ch\<leftarrow>s. int (code ch)"
  have "((- ?S) mod 256 + ?S) mod 256 = 0"
    by (simp add: mod_add_left_eq)
  with assms show ?thesis
    by (simp add: checksum_ascii)
qed

theorem checksum_cancels_sum_witness:
  "list_all is_ascii ''08PS  0500'' \<and> calculate_checksum_ascii ''08PS  0500'' = Inr 240
     \<and> (240 + (\<Sum>ch\<leftarrow>''08PS  0500''. int (code ch))) mod 256 = 0"
  using checksum_cancels_sum [of "''08PS  0500''"]
  by (simp add: is_ascii_def code_def calculate_checksum_ascii_def encode_ascii_def)

section \<open>The packet of a pressure of 50.0 psi\<close>

text \<open>
  Claim C1, as amended. The command \<open>PS\<close> with two spaces and the data \<open>0500\<close> are eight
  characters, so the length field is \<open>08\<close>: the packet is STX, \<open>08PS  0500\<close>, the checksum
  of these ten characters in two uppercase hexadecimal digits, \<open>F0\<close>, and ETX.
\<close>

theorem packet_PS_0500:
  "packet ''PS  '' ''0500'' = Inr ([STX] @ ''08PS  0500'' @ ''F0'' @ [ETX])
     \<and> calculate_checksum_ascii ''08PS  0500'' = Inr 240
     \<and> format_int 16 2 240 = ''F0''"
  by (simp add: packet_def eval_format eval_checksum)

text \<open>
  Claim C1, as stated, has the length field \<open>06\<close>. The checksum of \<open>06PS  0500\<close> is 242,
  and the packet is not the one made of that string and that checksum.
\<close>

theorem packet_PS_0500_counterexample:
  "calculate_checksum_ascii ''06PS  0500'' = Inr 242
     \<and> packet ''PS  '' ''0500'' \<noteq> Inr ([STX] @ ''06PS  0500'' @ format_int 16 2 242 @ [ETX])"
  by (simp add: packet_def eval_format eval_checksum)

section \<open>Encoding and decoding a frame\<close>

text \<open>
  Claim C2, as amended. For ASCII strings \<open>command_code\<close> and \<open>data\<close> of at most 255
  characters together, the packet is built, and decoding it gives back exactly one frame
  whose command and data are the command code followed by the data: the frame takes up the
  whole packet, the length field and the checksum field read back as the length and as the
  checksum computed over the length field and the payload, \<open>process_data_response\<close>
  returns the command and data without a warning, and \<open>check_response\<close> treats this one
  frame and ends. The command code that \<open>check_response\<close> takes from the frame is its
  first two characters: it is the command code that was encoded, and the rest the data,
  when that has two characters.
\<close>

theorem frame_round_trip:
  assumes "list_all is_ascii command_code" "list_all is_ascii data"
    "length command_code + length data \<le> 255"
  shows "\<exists>pkt k. packet command_code data = Inr pkt
           \<and> pkt = frame_of (command_code @ data) k
           \<and> checksum_of (command_code @ data) = Inr k
           \<and> py_int 16 (format_int 16 2 k) = Some k
           \<and> py_int 16 (format_int 16 2 (int (length (command_code @ data))))
               = Some (int (length (command_code @ data)))
           \<and> read_frame p pkt 1 = Frame (int (length pkt)) (command_code @ data)
           \<and> process_data_response pkt st =
               Some (Inr (Some (command_code @ data)),
                     say (Debug (CommandAndData (command_code @ data)))
                       (say (Debug (ProcessingData pkt)) st))
           \<and> check_response pkt e st =
               last_frame (handle_frame e (command_code @ data)
                             (say (Debug (RawResponse pkt)) st))
           \<and> (length command_code = 2 \<longrightarrow>
                 take 2 (command_code @ data) = command_code
                 \<and> drop 2 (command_code @ data) = data)"
proof -
  let ?P = "command_code @ data"
  from packet_frame_of [OF assms] obtain k
    where k: "checksum_of ?P = Inr k" "0 \<le> k" "k < 256"
      and pkt: "packet command_code data = Inr (frame_of ?P k)" by auto
  have P: "list_all is_ascii ?P" "length ?P \<le> 255" using assms by simp_all
  have len: "length (frame_of ?P k) = length ?P + 6"
    by (rule length_frame_of [OF P(2) k(2,3)])
  have rf: "read_frame p (frame_of ?P k) 1 = Frame (int (length (frame_of ?P k))) ?P"
    using read_frame_frame_of [OF P k(1) k(2,3), of 1 "[]" p "[]"] len by simp
  have pd: "process_data_loop (frame_of ?P k) 0 s =
      Some (Inr (Some ?P), say (Debug (CommandAndData ?P)) s)" for s
    using process_data_loop_frame_of [OF P k(1) k(2,3), of 0 "[]" "[]" s] by simp
  have cr: "check_response_loop (frame_of ?P k) e 0 s = last_frame (handle_frame e ?P s)" for s
    using check_response_loop_frame_of [OF P k(1) k(2,3), of 0 "[]" "[]" e s] len
    by (simp add: last_frame_def check_response_loop_end
        split: option.split sum.split prod.split flow.split)
  show ?thesis
    using pkt k rf pd cr P(2)
    by (simp add: process_data_response_def check_response_def format_hex2_int(3)
        format_hex2_props(3))
qed

theorem frame_round_trip_witness:
  "list_all is_ascii ''E8'' \<and> list_all is_ascii ''000''
     \<and> length ''E8'' + length ''000'' \<le> 255
     \<and> packet ''E8'' ''000'' = Inr (STX # ''05E80008E'' @ [ETX])
     \<and> process_data_response (STX # ''05E80008E'' @ [ETX]) (init None) =
         Some (Inr (Some ''E8000''),
               say (Debug (CommandAndData ''E8000''))
                 (say (Debug (ProcessingData (STX # ''05E80008E'' @ [ETX]))) (init None)))
     \<and> length ''E8'' = 2 \<and> take 2 (''E8'' @ ''000'') = ''E8'' \<and> drop 2 (''E8'' @ ''000'') = ''000''"
proof -
  have pkt: "packet ''E8'' ''000'' = Inr (STX # ''05E80008E'' @ [ETX])"
    by (simp add: packet_def eval_format eval_checksum)
  have ascii: "list_all is_ascii ''E8''" "list_all is_ascii ''000''"
    by (simp_all add: is_ascii_def code_def)
  from frame_round_trip [OF ascii, of InDataResponse "init None" False] pkt
  have "process_data_response (STX # ''05E80008E'' @ [ETX]) (init None) =
         Some (Inr (Some ''E8000''),
               say (Debug (CommandAndData ''E8000''))
                 (say (Debug (ProcessingData (STX # ''05E80008E'' @ [ETX]))) (init None)))"
    by auto
  with pkt ascii show ?thesis by simp
qed

text \<open>
  Claim C2, as stated, has the command code of the decoded frame match the one encoded.
  The packet of the command \<open>PS\<close> with two spaces and the data \<open>0500\<close> decodes to a frame
  whose command code is \<open>PS\<close>, of two characters, as \<open>check_response\<close> logs it.
\<close>

theorem frame_round_trip_code_counterexample:
  "packet ''PS  '' ''0500'' = Inr (frame_of ''PS  0500'' 240)
   \<and> check_response (frame_of ''PS  0500'' 240) False (init None) =
       Some (Inr None,
         say (Info (ReceivedOther ''PS'' ''PS  0500''))
           (say (Debug (RawResponse (frame_of ''PS  0500'' 240))) (init None)))
   \<and> ''PS'' \<noteq> ''PS  ''"
  by (simp add: packet_def frame_of_def check_response_def check_response_loop.simps
      handle_frame_def eval_format eval_frame eval_int eval_checksum eval_run Let_def)

section \<open>Decoding after a malformed frame\<close>

text \<open>
  Claim C4, as amended. Decoding goes on after a frame whose only defect is its checksum
  field. For a frame with ASCII command and data, the right length field and its ETX, and
  any two octets \<open>H\<close> in the checksum field that do not read as the checksum, both loops
  go on behind the frame with one warning, \<open>InvalidChecksum\<close> when \<open>int(H, 16)\<close> fails
  and \<open>ChecksumMismatch\<close> when it gives another number, whatever the buffer holds before
  and after the frame. A buffer of one such frame and one valid frame gives this one
  warning and then the valid frame, in this order, in \<open>check_response\<close> and in
  \<open>process_data_response\<close>; when the checksum field is made of two hexadecimal digits
  the warning is \<open>ChecksumMismatch\<close>.

  Decoding ends with one warning, whatever follows in the buffer, at an STX followed by
  less than two octets (\<open>IncompleteLength\<close>), by two octets that \<open>int\<close> rejects
  (\<open>InvalidLength\<close>), by a length field whose value reaches beyond the end of the buffer
  (\<open>IncompleteData\<close>), and by command and data and a checksum field with the end of the
  buffer or an octet other than ETX behind them (\<open>MissingETX\<close>).
\<close>

theorem decoding_resumes_after_checksum_mismatch:
  assumes "list_all is_ascii P1" "length P1 \<le> 255" "checksum_of P1 = Inr k1"
    and "length H = 2" "py_int 16 (decode_ascii_ignore H) \<noteq> Some k1"
    and "list_all is_ascii P2" "length P2 \<le> 255" "checksum_of P2 = Inr k2"
  shows "check_response_loop (pre @ frame_with P1 H @ post) e (int (length pre)) st =
           check_response_loop (pre @ frame_with P1 H @ post) e
             (int (length pre) + int (length P1) + 6)
             (say (Warning (if py_int 16 (decode_ascii_ignore H) = None
                            then InvalidChecksum InResponse
                            else ChecksumMismatch InResponse)) st)
       \<and> process_data_loop (pre @ frame_with P1 H @ post) (int (length pre)) st =
           process_data_loop (pre @ frame_with P1 H @ post)
             (int (length pre) + int (length P1) + 6)
             (say (Warning (if py_int 16 (decode_ascii_ignore H) = None
                            then InvalidChecksum InDataResponse
                            else ChecksumMismatch InDataResponse)) st)
       \<and> check_response (frame_with P1 H @ frame_of P2 k2) e st =
           last_frame (handle_frame e P2
             (say (Warning (if py_int 16 (decode_ascii_ignore H) = None
                            then InvalidChecksum InResponse
                            else ChecksumMismatch InResponse))
                (say (Debug (RawResponse (frame_with P1 H @ frame_of P2 k2))) st)))
       \<and> process_data_response (frame_with P1 H @ frame_of P2 k2) st =
           Some (Inr (Some P2),
             say (Debug (CommandAndData P2))
               (say (Warning (if py_int 16 (decode_ascii_ignore H) = None
                              then InvalidChecksum InDataResponse
                              else ChecksumMismatch InDataResponse))
                  (say (Debug (ProcessingData (frame_with P1 H @ frame_of P2 k2))) st)))
       \<and> (0 \<le> k' \<and> k' < 256 \<and> k' \<noteq> k1 \<longrightarrow>
            check_response_loop (pre @ frame_of P1 k' @ post) e (int (length pre)) st =
              check_response_loop (pre @ frame_of P1 k' @ post) e
                (int (length pre) + int (length P1) + 6)
                (say (Warning (ChecksumMismatch InResponse)) st)
            \<and> check_response (frame_of P1 k' @ frame_of P2 k2) e st =
              last_frame (handle_frame e P2
                (say (Warning (ChecksumMismatch InResponse))
                   (say (Debug (RawResponse (frame_of P1 k' @ frame_of P2 k2))) st)))
            \<and> process_data_response (frame_of P1 k' @ frame_of P2 k2) st =
              Some (Inr (Some P2),
                say (Debug (CommandAndData P2))
                  (say (Warning (ChecksumMismatch InDataResponse))
                     (say (Debug (ProcessingData (frame_of P1 k' @ frame_of P2 k2))) st))))
       \<and> (length t < 2 \<longrightarrow>
            check_response_loop (pre @ STX # t) e (int (length pre)) st =
              Some (Inr None, say (Warning (IncompleteLength InResponse)) st)
            \<and> process_data_loop (pre @ STX # t) (int (length pre)) st =
              Some (Inr None, say (Warning (IncompleteLength InDataResponse)) st))
       \<and> (length junk = 2 \<and> py_int 16 (decode_ascii_ignore junk) = None \<longrightarrow>
            check_response_loop (pre @ STX # junk @ rest) e (int (length pre)) st =
              Some (Inr None, say (Warning (InvalidLength InResponse)) st)
            \<and> process_data_loop (pre @ STX # junk @ rest) (int (length pre)) st =
              Some (Inr None, say (Warning (InvalidLength InDataResponse)) st))
       \<and> (length L = 2 \<and> py_int 16 (decode_ascii_ignore L) = Some n
            \<and> int (length rest) < n + 2 \<longrightarrow>
            check_response_loop (pre @ STX # L @ rest) e (int (length pre)) st =
              Some (Inr None, say (Warning (IncompleteData InResponse)) st)
            \<and> process_data_loop (pre @ STX # L @ rest) (int (length pre)) st =
              Some (Inr None, say (Warning (IncompleteData InDataResponse)) st))
       \<and> (length L = 2 \<and> py_int 16 (decode_ascii_ignore L) = Some (int (length P))
            \<and> length F = 2 \<and> (post = [] \<or> hd post \<noteq> ETX) \<longrightarrow>
            check_response_loop (pre @ STX # L @ P @ F @ post) e (int (length pre)) st =
              Some (Inr None, say (Warning (MissingETX InResponse)) st)
            \<and> process_data_loop (pre @ STX # L @ P @ F @ post) (int (length pre)) st =
              Some (Inr None, say (Warning (MissingETX InDataResponse)) st))"
proof -
  let ?bad = "frame_with P1 H" and ?good = "frame_of P2 k2"
  let ?w = "\<lambda>p. if py_int 16 (decode_ascii_ignore H) = None then InvalidChecksum p
                 else ChecksumMismatch p"
  have len: "int (length ?bad) = int (length P1) + 6"
    using length_frame_with [OF assms(2,4)] by simp
  have skip: "check_response_loop (xs @ ?bad @ ys) e (int (length xs)) s =
      check_response_loop (xs @ ?bad @ ys) e (int (length xs) + int (length P1) + 6)
        (say (Warning (?w InResponse)) s)" for xs ys s
    by (rule check_response_loop_field [OF assms(1-5)])
  have skip': "process_data_loop (xs @ ?bad @ ys) (int (length xs)) s =
      process_data_loop (xs @ ?bad @ ys) (int (length xs) + int (length P1) + 6)
        (say (Warning (?w InDataResponse)) s)" for xs ys s
    by (rule process_data_loop_field [OF assms(1-5)])
  have good: "check_response_loop (xs @ ?good) e (int (length P1) + 6) s =
      last_frame (handle_frame e P2 s)" if "int (length xs) = int (length P1) + 6" for xs s
    by (rule check_response_loop_last [OF assms(6-8)]) (simp add: that)
  have good': "process_data_loop (xs @ ?good) (int (length P1) + 6) s =
      Some (Inr (Some P2), say (Debug (CommandAndData P2)) s)"
    if "int (length xs) = int (length P1) + 6" for xs s
    by (rule process_data_loop_last [OF assms(6-8)]) (simp add: that)
  have one: "check_response (?bad @ ?good) e st =
      last_frame (handle_frame e P2
        (say (Warning (?w InResponse)) (say (Debug (RawResponse (?bad @ ?good))) st)))"
    unfolding check_response_def
    by (subst skip [of "[]" ?good, simplified]) (rule good [OF len])
  have two: "process_data_response (?bad @ ?good) st =
      Some (Inr (Some P2),
        say (Debug (CommandAndData P2))
          (say (Warning (?w InDataResponse)) (say (Debug (ProcessingData (?bad @ ?good))) st)))"
    unfolding process_data_response_def
    by (subst skip' [of "[]" ?good, simplified]) (rule good' [OF len])
  have mismatch:
    "check_response_loop (pre @ frame_of P1 k' @ post) e (int (length pre)) st =
       check_response_loop (pre @ frame_of P1 k' @ post) e
         (int (length pre) + int (length P1) + 6)
         (say (Warning (ChecksumMismatch InResponse)) st)
     \<and> check_response (frame_of P1 k' @ frame_of P2 k2) e st =
       last_frame (handle_frame e P2
         (say (Warning (ChecksumMismatch InResponse))
            (say (Debug (RawResponse (frame_of P1 k' @ frame_of P2 k2))) st)))
     \<and> process_data_response (frame_of P1 k' @ frame_of P2 k2) st =
       Some (Inr (Some P2),
         say (Debug (CommandAndData P2))
           (say (Warning (ChecksumMismatch InDataResponse))
              (say (Debug (ProcessingData (frame_of P1 k' @ frame_of P2 k2))) st)))"
    if k': "0 \<le> k'" "k' < 256" "k' \<noteq> k1"
  proof -
    note f = format_hex2_field [OF k']
    let ?bad' = "frame_of P1 k'"
    have len': "int (length ?bad') = int (length P1) + 6"
      using length_frame_of [OF assms(2) k'(1,2)] by simp
    have s: "check_response_loop (xs @ ?bad' @ ys) e (int (length xs)) s =
        check_response_loop (xs @ ?bad' @ ys) e (int (length xs) + int (length P1) + 6)
          (say (Warning (ChecksumMismatch InResponse)) s)" for xs ys s
      using check_response_loop_field [OF assms(1-3) f(1,2), of xs ys e s] f(3)
      by (simp add: frame_of_frame_with)
    have s': "process_data_loop (xs @ ?bad' @ ys) (int (length xs)) s =
        process_data_loop (xs @ ?bad' @ ys) (int (length xs) + int (length P1) + 6)
          (say (Warning (ChecksumMismatch InDataResponse)) s)" for xs ys s
      using process_data_loop_field [OF assms(1-3) f(1,2), of xs ys s] f(3)
      by (simp add: frame_of_frame_with)
    have a: "check_response (?bad' @ ?good) e st =
        last_frame (handle_frame e P2
          (say (Warning (ChecksumMismatch InResponse))
             (say (Debug (RawResponse (?bad' @ ?good))) st)))"
      unfolding check_response_def
      by (subst s [of "[]" ?good, simplified]) (rule good [OF len'])
    have b: "process_data_response (?bad' @ ?good) st =
        Some (Inr (Some P2),
          say (Debug (CommandAndData P2))
            (say (Warning (ChecksumMismatch InDataResponse))
               (say (Debug (ProcessingData (?bad' @ ?good))) st)))"
      unfolding process_data_response_def
      by (subst s' [of "[]" ?good, simplified]) (rule good' [OF len'])
    from s [of pre post st] a b show ?thesis by (intro conjI)
  qed
  have short: "check_response_loop (pre @ STX # t) e (int (length pre)) st =
        Some (Inr None, say (Warning (IncompleteLength InResponse)) st)
      \<and> process_data_loop (pre @ STX # t) (int (length pre)) st =
        Some (Inr None, say (Warning (IncompleteLength InDataResponse)) st)"
    if "length t < 2"
    by (simp add: check_response_loop_at_stx process_data_loop_at_stx
        read_frame_short [OF that refl])
  have bad_length: "check_response_loop (pre @ STX # junk @ rest) e (int (length pre)) st =
        Some (Inr None, say (Warning (InvalidLength InResponse)) st)
      \<and> process_data_loop (pre @ STX # junk @ rest) (int (length pre)) st =
        Some (Inr None, say (Warning (InvalidLength InDataResponse)) st)"
    if "length junk = 2" "py_int 16 (decode_ascii_ignore junk) = None"
    by (simp add: check_response_loop_at_stx process_data_loop_at_stx
        read_frame_bad_length [OF that refl])
  have short_data: "check_response_loop (pre @ STX # L @ rest) e (int (length pre)) st =
        Some (Inr None, say (Warning (IncompleteData InResponse)) st)
      \<and> process_data_loop (pre @ STX # L @ rest) (int (length pre)) st =
        Some (Inr None, say (Warning (IncompleteData InDataResponse)) st)"
    if "length L = 2" "py_int 16 (decode_ascii_ignore L) = Some n" "int (length rest) < n + 2"
    by (simp add: check_response_loop_at_stx process_data_loop_at_stx
        read_frame_short_data [OF that refl])
  have no_etx: "check_response_loop (pre @ STX # L @ P @ F @ post) e (int (length pre)) st =
        Some (Inr None, say (Warning (MissingETX InResponse)) st)
      \<and> process_data_loop (pre @ STX # L @ P @ F @ post) (int (length pre)) st =
        Some (Inr None, say (Warning (MissingETX InDataResponse)) st)"
    if "length L = 2" "py_int 16 (decode_ascii_ignore L) = Some (int (length P))"
      "length F = 2" "post = [] \<or> hd post \<noteq> ETX"
    by (simp add: check_response_loop_at_stx process_data_loop_at_stx
        read_frame_no_etx [OF that refl])
  show ?thesis
    using skip [of pre post st] skip' [of pre post st] one two mismatch short bad_length
      short_data no_etx
    by blast
qed

theorem decoding_resumes_after_checksum_mismatch_witness:
  "list_all is_ascii ''A0'' \<and> length ''A0'' \<le> 255 \<and> checksum_of ''A0'' = Inr 45
     \<and> length ''ZZ'' = 2 \<and> py_int 16 (decode_ascii_ignore ''ZZ'') \<noteq> Some 45
     \<and> list_all is_ascii ''A2'' \<and> length ''A2'' \<le> 255 \<and> checksum_of ''A2'' = Inr 43
     \<and> process_data_response (frame_with ''A0'' ''ZZ'' @ frame_of ''A2'' 43) (init None) =
           Some (Inr (Some ''A2''),
             say (Debug (CommandAndData ''A2''))
               (say (Warning (InvalidChecksum InDataResponse))
                  (say (Debug (ProcessingData (frame_with ''A0'' ''ZZ'' @ frame_of ''A2'' 43)))
                     (init None))))
     \<and> (0::int) \<le> 0 \<and> (0::int) < 256 \<and> (0::int) \<noteq> 45
     \<and> process_data_response (frame_of ''A0'' 0 @ frame_of ''A2'' 43) (init None) =
           Some (Inr (Some ''A2''),
             say (Debug (CommandAndData ''A2''))
               (say (Warning (ChecksumMismatch InDataResponse))
                  (say (Debug (ProcessingData (frame_of ''A0'' 0 @ frame_of ''A2'' 43)))
                     (init None))))
     \<and> length ''0'' < 2
     \<and> check_response_loop (STX # ''0'') False 0 (init None) =
           Some (Inr None, say (Warning (IncompleteLength InResponse)) (init None))
     \<and> py_int 16 (decode_ascii_ignore ''ZZ'') = None
     \<and> check_response_loop (STX # ''ZZ'' @ ''A0'') False 0 (init None) =
           Some (Inr None, say (Warning (InvalidLength InResponse)) (init None))
     \<and> length ''05'' = 2 \<and> py_int 16 (decode_ascii_ignore ''05'') = Some 5
     \<and> int (length ''A0'') < 5 + 2
     \<and> check_response_loop (STX # ''05'' @ ''A0'') False 0 (init None) =
           Some (Inr None, say (Warning (IncompleteData InResponse)) (init None))
     \<and> py_int 16 (decode_ascii_ignore ''05'') = Some (int (length ''E8000''))
     \<and> length ''8E'' = 2 \<and> hd (frame_of ''A2'' 43) \<noteq> ETX
     \<and> check_response_loop (STX # ''05'' @ ''E8000'' @ ''8E'' @ frame_of ''A2'' 43) False 0
           (init None) =
           Some (Inr None, say (Warning (MissingETX InResponse)) (init None))"
proof -
  have a: "checksum_of ''A0'' = Inr 45" "checksum_of ''A2'' = Inr 43"
    by (simp_all add: checksum_of_def eval_format eval_checksum)
  have b: "list_all is_ascii ''A0''" "list_all is_ascii ''A2''"
    by (simp_all add: is_ascii_def code_def)
  have c: "py_int 16 (decode_ascii_ignore ''ZZ'') = None"
    "py_int 16 (decode_ascii_ignore ''05'') = Some 5"
    by (simp_all add: decode_ascii_ignore_def eval_int eval_checksum)
  have c': "py_int 16 (decode_ascii_ignore ''ZZ'') \<noteq> Some 45"
    "py_int 16 (decode_ascii_ignore ''05'') = Some (int (length ''E8000''))"
    using c by simp_all
  have h: "hd (frame_of ''A2'' 43) \<noteq> ETX"
    by (simp add: frame_of_def STX_def ETX_def)
  have l: "length ''A0'' \<le> 255" "length ''A2'' \<le> 255" "length ''ZZ'' = 2" "length ''05'' = 2"
    "length ''8E'' = 2" "length ''0'' < 2" "int (length ''A0'') < 5 + 2"
    "(0::int) \<le> 0" "(0::int) < 256" "(0::int) \<noteq> 45"
    by simp_all
  note inst = decoding_resumes_after_checksum_mismatch
      [where ?P1.0 = "''A0''" and ?k1.0 = 45 and H = "''ZZ''" and ?P2.0 = "''A2''"
        and ?k2.0 = 43 and k' = 0 and pre = "[]" and post = "frame_of ''A2'' 43" and e = False
        and st = "init None" and t = "''0''" and junk = "''ZZ''" and rest = "''A0''"
        and L = "''05''" and n = 5 and P = "''E8000''" and F = "''8E''",
        OF b(1) l(1) a(1) l(3) c'(1) b(2) l(2) a(2)]
  have d1: "process_data_response (frame_with ''A0'' ''ZZ'' @ frame_of ''A2'' 43) (init None) =
           Some (Inr (Some ''A2''),
             say (Debug (CommandAndData ''A2''))
               (say (Warning (InvalidChecksum InDataResponse))
                  (say (Debug (ProcessingData (frame_with ''A0'' ''ZZ'' @ frame_of ''A2'' 43)))
                     (init None))))"
    using inst c(1) by simp
  have d2: "process_data_response (frame_of ''A0'' 0 @ frame_of ''A2'' 43) (init None) =
           Some (Inr (Some ''A2''),
             say (Debug (CommandAndData ''A2''))
               (say (Warning (ChecksumMismatch InDataResponse))
                  (say (Debug (ProcessingData (frame_of ''A0'' 0 @ frame_of ''A2'' 43)))
                     (init None))))"
    using inst by simp
  have d3: "check_response_loop (STX # ''0'') False 0 (init None) =
           Some (Inr None, say (Warning (IncompleteLength InResponse)) (init None))"
    using inst by simp
  have d4: "check_response_loop (STX # ''ZZ'' @ ''A0'') False 0 (init None) =
           Some (Inr None, say (Warning (InvalidLength InResponse)) (init None))"
    using inst c(1) by simp
  have d5: "check_response_loop (STX # ''05'' @ ''A0'') False 0 (init None) =
           Some (Inr None, say (Warning (IncompleteData InResponse)) (init None))"
    using inst c(2) by simp
  have d6: "check_response_loop (STX # ''05'' @ ''E8000'' @ ''8E'' @ frame_of ''A2'' 43) False 0
           (init None) =
           Some (Inr None, say (Warning (MissingETX InResponse)) (init None))"
    using inst c(2) h by simp
  show ?thesis
    using a b c c' h l d1 d2 d3 d4 d5 d6 by (intro conjI)
qed

text \<open>
  Claim C4, as stated, holds for every malformed frame. A frame whose length field is not
  hexadecimal ends the loop: the valid success frame behind it is not treated (no success
  is logged and no EOT is written), though the same frame alone is.
\<close>

theorem decoding_stops_at_bad_length_counterexample:
  "check_response ([STX] @ ''ZZA000'' @ [ETX] @ frame_of ''A0'' 45) False (init (Some (port []))) =
     Some (Inr None,
       say (Warning (InvalidLength InResponse))
         (say (Debug (RawResponse ([STX] @ ''ZZA000'' @ [ETX] @ frame_of ''A0'' 45)))
            (init (Some (port [])))))
   \<and> check_response (frame_of ''A0'' 45) False (init (Some (port []))) =
     Some (Inr None,
       \<lparr>ser = Some \<lparr>tx = [[EOT]], rx = [], tx_faults = []\<rparr>, is_timed_mode = True,
          start_time = None,
          logger = [Info Started, Debug (RawResponse (frame_of ''A0'' 45)),
                    Warning NoStartTime, Info ReceivedSuccess, Debug SendingEOT]\<rparr>)"
  by (simp add: check_response_def check_response_loop.simps handle_frame_def log_delay_def
      send_eot_def frame_of_def eval_format eval_frame eval_int eval_checksum eval_run Let_def
      init_def port_def)

section \<open>Responses on which the loops do not end\<close>

text \<open>
  A length field may be negative, since \<open>int('-F', 16)\<close> is \<open>-15\<close>. The index then goes
  back, before the start of the buffer in the first example, where reading the octet at it
  raises \<open>IndexError\<close>.
\<close>

lemma check_response_index_error:
  "check_response (STX # ''-F'') False st =
     Some (Inl IndexError, say (Debug (RawResponse (STX # ''-F''))) st)"
  by (simp add: check_response_def check_response_loop.simps eval_frame eval_int eval_checksum
      Let_def)

text \<open>
  In the second example the length field \<open>-6\<close> takes the index back to the STX it came
  from, with a checksum warning every time: neither loop returns on these six octets.
\<close>

lemma process_data_loop_goes_round:
  assumes "process_data_loop response index st = Some y"
  shows "\<not> (response = ''00'' @ [ETX, STX] @ ''-6'' \<and> index = 3)"
  using assms
proof (induction rule: process_data_loop.raw_induct [rotated 1, consumes 1])
  case (1 loop response index st y)
  show ?case
  proof
    assume a: "response = ''00'' @ [ETX, STX] @ ''-6'' \<and> index = 3"
    have "read_frame InDataResponse (''00'' @ [ETX, STX] @ ''-6'') 4 =
        Skip (ChecksumMismatch InDataResponse) 3"
      by (simp add: eval_frame eval_int eval_checksum Let_def)
    with a "1.hyps" have "loop (''00'' @ [ETX, STX] @ ''-6'') 3
        (say (Warning (ChecksumMismatch InDataResponse)) st) = Some y"
      by (simp add: py_index_def STX_def ETX_def)
    from "1.IH" [OF this] show False by simp
  qed
qed

lemma process_data_response_never_returns:
  "process_data_response (''00'' @ [ETX, STX] @ ''-6'') st = None"
proof -
  have "process_data_loop (''00'' @ [ETX, STX] @ ''-6'') 3 s = None" for s
    using process_data_loop_goes_round [of "''00'' @ [ETX, STX] @ ''-6''" 3 s]
    by (cases "process_data_loop (''00'' @ [ETX, STX] @ ''-6'') 3 s") auto
  then show ?thesis
    by (simp add: process_data_response_def process_data_loop.simps [of _ 0]
        process_data_loop.simps [of _ 1] process_data_loop.simps [of _ 2]
        py_index_def STX_def ETX_def)
qed

lemma check_response_loop_goes_round:
  assumes "check_response_loop response e index st = Some y"
  shows "\<not> (response = ''00'' @ [ETX, STX] @ ''-6'' \<and> index = 3)"
  using assms
proof (induction rule: check_response_loop.raw_induct [rotated 1, consumes 1])
  case (1 loop response e index st y)
  show ?case
  proof
    assume a: "response = ''00'' @ [ETX, STX] @ ''-6'' \<and> index = 3"
    have "read_frame InResponse (''00'' @ [ETX, STX] @ ''-6'') 4 =
        Skip (ChecksumMismatch InResponse) 3"
      by (simp add: eval_frame eval_int eval_checksum Let_def)
    with a "1.hyps" have "loop (''00'' @ [ETX, STX] @ ''-6'') e 3
        (say (Warning (ChecksumMismatch InResponse)) st) = Some y"
      by (simp add: py_index_def STX_def ETX_def)
    from "1.IH" [OF this] show False by simp
  qed
qed

lemma check_response_never_returns:
  "check_response (''00'' @ [ETX, STX] @ ''-6'') e st = None"
proof -
  have "check_response_loop (''00'' @ [ETX, STX] @ ''-6'') e 3 s = None" for s
    using check_response_loop_goes_round [of "''00'' @ [ETX, STX] @ ''-6''" e 3 s]
    by (cases "check_response_loop (''00'' @ [ETX, STX] @ ''-6'') e 3 s") auto
  then show ?thesis
    by (simp add: check_response_def check_response_loop.simps [of _ _ 0]
        check_response_loop.simps [of _ _ 1] check_response_loop.simps [of _ _ 2]
        py_index_def STX_def ETX_def)
qed

section \<open>The handshake\<close>

text \<open>
  Claim C7. After the ENQ has been written, when the read of one octet returns anything but
  the single octet ACK, also nothing at all, \<open>send_command\<close> logs that no ACK came and
  returns: the ENQ is all that was written to the port.
\<close>

theorem no_ack_no_command:
  assumes "ser st = Some s"
    and "port_write [ENQ] s = (Inr (), s1)"
    and "port_read 1 s1 = (Inr b, s2)"
    and "b \<noteq> [ACK]"
  shows "send_command command_code data expect_response st =
           Some (Inr None,
             say (Warning NoAckAfterENQ) (say (Debug SentENQ) (st\<lparr>ser := Some s2\<rparr>)))
       \<and> tx s2 = tx s @ [[ENQ]]"
proof -
  have "tx s1 = tx s @ [[ENQ]]"
    using assms(2) by (auto simp: port_write_def split: list.splits if_splits)
  moreover have "tx s2 = tx s1"
    using assms(3) by (auto simp: port_read_def split: list.splits rx_event.splits)
  ultimately have "tx s2 = tx s @ [[ENQ]]" by simp
  moreover have "send_command command_code data expect_response st =
      Some (Inr None, say (Warning NoAckAfterENQ) (say (Debug SentENQ) (st\<lparr>ser := Some s2\<rparr>)))"
    using assms
    by (simp add: send_command_def send_command_try_def try_except_def seq_def ser_write_def
        ser_read_def emit_def say_def return_def)
  ultimately show ?thesis by simp
qed

theorem no_ack_no_command_witness:
  "ser (init (Some (port []))) = Some (port [])
     \<and> port_write [ENQ] (port []) = (Inr (), \<lparr>tx = [[ENQ]], rx = [], tx_faults = []\<rparr>)
     \<and> port_read 1 \<lparr>tx = [[ENQ]], rx = [], tx_faults = []\<rparr>
         = (Inr [], \<lparr>tx = [[ENQ]], rx = [], tx_faults = []\<rparr>)
     \<and> [] \<noteq> [ACK]
     \<and> send_command ''PS  '' ''0500'' False (init (Some (port []))) =
           Some (Inr None,
             \<lparr>ser = Some \<lparr>tx = [[ENQ]], rx = [], tx_faults = []\<rparr>, is_timed_mode = True,
                start_time = None,
                logger = [Info Started, Debug SentENQ, Warning NoAckAfterENQ]\<rparr>)"
  using no_ack_no_command [where st = "init (Some (port []))" and s = "port []"
      and ?s1.0 = "\<lparr>tx = [[ENQ]], rx = [], tx_faults = []\<rparr>"
      and ?s2.0 = "\<lparr>tx = [[ENQ]], rx = [], tx_faults = []\<rparr>" and b = "[]"
      and command_code = "''PS  ''" and data = "''0500''" and expect_response = False]
  by (simp add: init_def port_def port_write_def port_read_def say_def)

text \<open>When the read itself fails, the packet is not written either.\<close>

lemma read_fails_no_command:
  assumes "ser st = Some s"
    and "port_write [ENQ] s = (Inr (), s1)"
    and "port_read 1 s1 = (Inl e, s2)"
  shows "send_command command_code data expect_response st =
           Some (Inr None,
             say (Error CommunicationError) (say (Debug SentENQ) (st\<lparr>ser := Some s2\<rparr>)))
       \<and> tx s2 = tx s @ [[ENQ]]"
proof -
  have "tx s1 = tx s @ [[ENQ]]"
    using assms(2) by (auto simp: port_write_def split: list.splits if_splits)
  moreover have "tx s2 = tx s1" "e = SerialException"
    using assms(3) by (auto simp: port_read_def split: list.splits rx_event.splits)
  ultimately show ?thesis
    using assms
    by (simp add: send_command_def send_command_try_def try_except_def seq_def ser_write_def
        ser_read_def emit_def say_def return_def)
qed

section \<open>The mode\<close>

lemma say_mode [simp]: "is_timed_mode (say m st) = is_timed_mode st"
  by (simp add: say_def)






















lemma parse_read_values_mode [simp]:
  "is_timed_mode (parse_read_values d st) = is_timed_mode st"
  by (simp add: parse_read_values_def Let_def split: option.split)












text \<open>
  After a success frame and the six octets on which the loop does not end, the command
  never returns: the device has reported success, the EOT has been written, and the mode
  is not flipped.
\<close>

lemma check_response_loop_goes_round_after_success:
  assumes "check_response_loop response e index st = Some y"
  shows "\<not> (response = frame_of ''A0'' 45 @ ''00'' @ [ETX, STX] @ ''-6'' \<and> index = 11)"
  using assms
proof (induction rule: check_response_loop.raw_induct [rotated 1, consumes 1])
  case (1 loop response e index st y)
  show ?case
  proof
    assume a: "response = frame_of ''A0'' 45 @ ''00'' @ [ETX, STX] @ ''-6'' \<and> index = 11"
    have "read_frame InResponse (frame_of ''A0'' 45 @ ''00'' @ [ETX, STX] @ ''-6'') 12 =
        Skip (ChecksumMismatch InResponse) 11"
      by (simp add: frame_of_def eval_format eval_frame eval_int eval_checksum Let_def)
    with a "1.hyps" have "loop (frame_of ''A0'' 45 @ ''00'' @ [ETX, STX] @ ''-6'') e 11
        (say (Warning (ChecksumMismatch InResponse)) st) = Some y"
      by (simp add: frame_of_def eval_format py_index_def STX_def ETX_def)
    from "1.IH" [OF this] show False by simp
  qed
qed

lemma toggle_mode_never_returns:
  "dispenser_callback ''toggle_mode''
     (init (Some (port [Rx [ACK], Rx (frame_of ''A0'' 45 @ ''00'' @ [ETX, STX] @ ''-6'')]))) = None"
proof -
  have "check_response_loop (frame_of ''A0'' 45 @ ''00'' @ [ETX, STX] @ ''-6'') e 11 s = None"
    for e s
    using check_response_loop_goes_round_after_success
      [of "frame_of ''A0'' 45 @ ''00'' @ [ETX, STX] @ ''-6''" e 11 s]
    by (cases "check_response_loop (frame_of ''A0'' 45 @ ''00'' @ [ETX, STX] @ ''-6'') e 11 s")
      auto
  then show ?thesis
    by (simp add: dispenser_callback_def startswith_def send_command_def send_command_try_def
        check_response_def check_response_loop.simps [of _ _ 0]
        check_response_loop.simps [of _ _ 8] check_response_loop.simps [of _ _ 9]
        check_response_loop.simps [of _ _ 10] handle_frame_def log_delay_def send_eot_def
        frame_of_def packet_def eval_format eval_frame eval_int eval_checksum eval_run Let_def
        init_def port_def)
qed

section \<open>The values read from a memory location\<close>

lemma fdiv_examples: "fdiv 500 10 = 50" "fdiv 5000 10000 = 1 / 2" "fdiv 100 10 = 10"
  by code_simp+

lemmas eval_parse = parse_read_values_def startswith_def py_slice_def clip_def eval_int code_def

text \<open>
  Claim C9, as amended. The markers \<open>D0\<close>, \<open>PD\<close>, \<open>DT\<close> and \<open>VC\<close> are checked in
  this order, with a pressure of four characters, a time of five and a vacuum of four
  between them. A payload without a marker fails with the error that names the first
  marker missing, when the numbers before that marker are integers; when a number is not
  an integer the failure is the general parse error, whatever follows. The payload
  \<open>D0PD0500DT05000VC0100\<close> gives the pressure 50.0, the time 0.5 and the vacuum 10.0.
\<close>

theorem parse_read_values_markers:
  "(\<not> startswith d ''D0'' \<longrightarrow> parse_read_values d st = say (Error (Missing ''D0'')) st)
   \<and> (startswith d ''D0'' \<and> py_slice d 2 4 \<noteq> ''PD'' \<longrightarrow>
        parse_read_values d st = say (Error (Missing ''PD'')) st)
   \<and> (startswith d ''D0'' \<and> py_slice d 2 4 = ''PD'' \<and> py_int 10 (py_slice d 4 8) = Some p
        \<and> py_slice d 8 10 \<noteq> ''DT'' \<longrightarrow>
        parse_read_values d st = say (Error (Missing ''DT'')) st)
   \<and> (startswith d ''D0'' \<and> py_slice d 2 4 = ''PD'' \<and> py_int 10 (py_slice d 4 8) = Some p
        \<and> py_slice d 8 10 = ''DT'' \<and> py_int 10 (py_slice d 10 15) = Some t
        \<and> py_slice d 15 17 \<noteq> ''VC'' \<longrightarrow>
        parse_read_values d st = say (Error (Missing ''VC'')) st)
   \<and> (startswith d ''D0'' \<and> py_slice d 2 4 = ''PD'' \<and> py_int 10 (py_slice d 4 8) = Some p
        \<and> py_slice d 8 10 = ''DT'' \<and> py_int 10 (py_slice d 10 15) = Some t
        \<and> py_slice d 15 17 = ''VC'' \<and> py_int 10 (py_slice d 17 21) = Some v \<longrightarrow>
        parse_read_values d st =
          say (Info (Vacuum (fdiv (of_int v) 10)))
            (say (Info (Time (fdiv (of_int t) 10000)))
               (say (Info (Pressure (fdiv (of_int p) 10))) st)))
   \<and> (startswith d ''D0'' \<and> py_slice d 2 4 = ''PD''
        \<and> (py_int 10 (py_slice d 4 8) = None
            \<or> py_slice d 8 10 = ''DT'' \<and> py_int 10 (py_slice d 4 8) \<noteq> None
               \<and> py_int 10 (py_slice d 10 15) = None) \<longrightarrow>
        parse_read_values d st = say (Error ParseError) st)
   \<and> parse_read_values ''D0PD0500DT05000VC0100'' st =
        say (Info (Vacuum 10)) (say (Info (Time (1 / 2))) (say (Info (Pressure 50)) st))"
proof (intro conjI impI)
  show "parse_read_values ''D0PD0500DT05000VC0100'' st =
        say (Info (Vacuum 10)) (say (Info (Time (1 / 2))) (say (Info (Pressure 50)) st))"
    by (simp add: eval_parse fdiv_examples)
qed (auto simp: parse_read_values_def Let_def)

theorem parse_read_values_markers_witness:
  "\<not> startswith ''XXPD0500'' ''D0''
   \<and> parse_read_values ''XXPD0500'' (init None) = say (Error (Missing ''D0'')) (init None)
   \<and> startswith ''D0XX0500'' ''D0'' \<and> py_slice ''D0XX0500'' 2 4 \<noteq> ''PD''
   \<and> parse_read_values ''D0XX0500'' (init None) = say (Error (Missing ''PD'')) (init None)
   \<and> startswith ''D0PD0500XX'' ''D0'' \<and> py_slice ''D0PD0500XX'' 2 4 = ''PD''
   \<and> py_int 10 (py_slice ''D0PD0500XX'' 4 8) = Some 500
   \<and> py_slice ''D0PD0500XX'' 8 10 \<noteq> ''DT''
   \<and> parse_read_values ''D0PD0500XX'' (init None) = say (Error (Missing ''DT'')) (init None)
   \<and> startswith ''D0PD0500DT05000'' ''D0'' \<and> py_slice ''D0PD0500DT05000'' 2 4 = ''PD''
   \<and> py_int 10 (py_slice ''D0PD0500DT05000'' 4 8) = Some 500
   \<and> py_slice ''D0PD0500DT05000'' 8 10 = ''DT''
   \<and> py_int 10 (py_slice ''D0PD0500DT05000'' 10 15) = Some 5000
   \<and> py_slice ''D0PD0500DT05000'' 15 17 \<noteq> ''VC''
   \<and> parse_read_values ''D0PD0500DT05000'' (init None)
        = say (Error (Missing ''VC'')) (init None)
   \<and> startswith ''D0PD 5 0'' ''D0'' \<and> py_slice ''D0PD 5 0'' 2 4 = ''PD''
   \<and> py_int 10 (py_slice ''D0PD 5 0'' 4 8) = None
   \<and> parse_read_values ''D0PD 5 0'' (init None) = say (Error ParseError) (init None)"
proof -
  note eval = startswith_def py_slice_def clip_def eval_int code_def
  have a: "\<not> startswith ''XXPD0500'' ''D0''"
    by (simp add: startswith_def)
  have b: "startswith ''D0XX0500'' ''D0''" "py_slice ''D0XX0500'' 2 4 \<noteq> ''PD''"
    by (simp_all add: eval)
  have c: "startswith ''D0PD0500XX'' ''D0''" "py_slice ''D0PD0500XX'' 2 4 = ''PD''"
    "py_int 10 (py_slice ''D0PD0500XX'' 4 8) = Some 500"
    "py_slice ''D0PD0500XX'' 8 10 \<noteq> ''DT''"
    by (simp_all add: eval)
  have d: "startswith ''D0PD0500DT05000'' ''D0''" "py_slice ''D0PD0500DT05000'' 2 4 = ''PD''"
    "py_int 10 (py_slice ''D0PD0500DT05000'' 4 8) = Some 500"
    "py_slice ''D0PD0500DT05000'' 8 10 = ''DT''"
    "py_int 10 (py_slice ''D0PD0500DT05000'' 10 15) = Some 5000"
    "py_slice ''D0PD0500DT05000'' 15 17 \<noteq> ''VC''"
    by (simp_all add: eval)
  have e: "startswith ''D0PD 5 0'' ''D0''" "py_slice ''D0PD 5 0'' 2 4 = ''PD''"
    "py_int 10 (py_slice ''D0PD 5 0'' 4 8) = None"
    by (simp_all add: eval)
  from parse_read_values_markers [of "''XXPD0500''" "init None"] a
  have a': "parse_read_values ''XXPD0500'' (init None) = say (Error (Missing ''D0'')) (init None)"
    by blast
  from parse_read_values_markers [of "''D0XX0500''" "init None"] b
  have b': "parse_read_values ''D0XX0500'' (init None) = say (Error (Missing ''PD'')) (init None)"
    by blast
  from parse_read_values_markers [of "''D0PD0500XX''" "init None" 500] c
  have c': "parse_read_values ''D0PD0500XX'' (init None) = say (Error (Missing ''DT'')) (init None)"
    by blast
  from parse_read_values_markers [of "''D0PD0500DT05000''" "init None" 500 5000] d
  have d': "parse_read_values ''D0PD0500DT05000'' (init None)
        = say (Error (Missing ''VC'')) (init None)"
    by blast
  from parse_read_values_markers [of "''D0PD 5 0''" "init None"] e
  have e': "parse_read_values ''D0PD 5 0'' (init None) = say (Error ParseError) (init None)"
    by blast
  show ?thesis
    using a b c d e a' b' c' d' e' by simp
qed

text \<open>
  Claim C9, as stated, has every payload without a marker fail with the name of that
  marker. The payload \<open>D0PD0500DT\<close> ends behind the marker \<open>DT\<close>: the marker \<open>VC\<close> is
  missing, the time is the empty string, which is no integer, and the error is the general
  parse error, not the one that names \<open>VC\<close>.
\<close>

theorem parse_read_values_marker_counterexample:
  "py_slice ''D0PD0500DT'' 15 17 \<noteq> ''VC''
   \<and> parse_read_values ''D0PD0500DT'' (init None) = say (Error ParseError) (init None)
   \<and> say (Error ParseError) (init None) \<noteq> say (Error (Missing ''VC'')) (init None)"
  by (simp add: eval_parse say_def init_def)

section \<open>The default memory location\<close>

text \<open>
  Claim C10. The command \<open>read_values\<close> without a memory location does what
  \<open>read_values 0\<close> does: it sends the command code \<open>E8\<close> with the data \<open>000\<close> and
  expects a response. On a device that acknowledges and then keeps silent, both commands
  write the ENQ and the packet \<open>STX 05E8000 8E ETX\<close> to the port and nothing else. On a
  device that answers with a success frame and then with the values, the command without a
  memory location writes the ENQ, this packet, the ACK that asks for the data and the EOT,
  and logs the three values.
\<close>

theorem read_values_default:
  "dispenser_callback ''read_values'' = dispenser_callback ''read_values 0''
   \<and> dispenser_callback ''read_values'' =
       try_except (read_values 0) is_ValueError (emit (Error BadMemoryLocation))
   \<and> read_values 0 =
       seq (send_command ''E8'' ''000'' True) (\<lambda>response_data.
         case response_data of
           None \<Rightarrow> return ()
         | Some d \<Rightarrow> if d \<noteq> [] then (\<lambda>st. return () (parse_read_values d st)) else return ())
   \<and> packet ''E8'' ''000'' = Inr ([STX] @ ''05E8000'' @ ''8E'' @ [ETX])
   \<and> dispenser_callback ''read_values'' (init (Some (port [Rx [ACK]]))) =
       Some (Inr (),
         \<lparr>ser = Some \<lparr>tx = [[ENQ], [STX] @ ''05E8000'' @ ''8E'' @ [ETX]], rx = [],
                        tx_faults = []\<rparr>,
            is_timed_mode = True, start_time = None,
            logger = [Info Started, Debug SentENQ, Debug ReceivedAck,
                      Debug (SentPacket ([STX] @ ''05E8000'' @ ''8E'' @ [ETX])),
                      Warning NoResponse]\<rparr>)
   \<and> dispenser_callback ''read_values 0'' (init (Some (port [Rx [ACK]]))) =
       Some (Inr (),
         \<lparr>ser = Some \<lparr>tx = [[ENQ], [STX] @ ''05E8000'' @ ''8E'' @ [ETX]], rx = [],
                        tx_faults = []\<rparr>,
            is_timed_mode = True, start_time = None,
            logger = [Info Started, Debug SentENQ, Debug ReceivedAck,
                      Debug (SentPacket ([STX] @ ''05E8000'' @ ''8E'' @ [ETX])),
                      Warning NoResponse]\<rparr>)
   \<and> dispenser_callback ''read_values''
         (init (Some (port [Rx [ACK], Rx (frame_of ''A0'' 45),
                            Rx (frame_of ''D0PD0500DT05000VC0100'' 230)]))) =
       Some (Inr (),
         \<lparr>ser = Some \<lparr>tx = [[ENQ], [STX] @ ''05E8000'' @ ''8E'' @ [ETX], [ACK], [EOT]],
                        rx = [], tx_faults = []\<rparr>,
            is_timed_mode = True, start_time = None,
            logger = [Info Started, Debug SentENQ, Debug ReceivedAck,
                      Debug (SentPacket ([STX] @ ''05E8000'' @ ''8E'' @ [ETX])),
                      Debug (RawResponse (frame_of ''A0'' 45)), Warning NoStartTime,
                      Info ReceivedSuccess, Debug SendingAck,
                      Debug (ReceivedData (frame_of ''D0PD0500DT05000VC0100'' 230)),
                      Debug (ProcessingData (frame_of ''D0PD0500DT05000VC0100'' 230)),
                      Debug (CommandAndData ''D0PD0500DT05000VC0100''), Debug SendingEOT,
                      Info (Pressure 50), Info (Time (1 / 2)), Info (Vacuum 10)]\<rparr>)"
proof -
  have same: "dispenser_callback ''read_values'' = dispenser_callback ''read_values 0''"
    and default: "dispenser_callback ''read_values'' =
       try_except (read_values 0) is_ValueError (emit (Error BadMemoryLocation))"
    by (simp_all add: dispenser_callback_def startswith_def eval_int code_def Let_def)
  have command: "read_values 0 =
       seq (send_command ''E8'' ''000'' True) (\<lambda>response_data.
         case response_data of
           None \<Rightarrow> return ()
         | Some d \<Rightarrow> if d \<noteq> [] then (\<lambda>st. return () (parse_read_values d st)) else return ())"
    by (simp add: read_values_def eval_format Let_def)
  have parse: "parse_read_values ''D0PD0500DT05000VC0100'' st =
        say (Info (Vacuum 10)) (say (Info (Time (1 / 2))) (say (Info (Pressure 50)) st))" for st
    by (simp add: eval_parse fdiv_examples)
  have silent: "dispenser_callback ''read_values'' (init (Some (port [Rx [ACK]]))) =
       Some (Inr (),
         \<lparr>ser = Some \<lparr>tx = [[ENQ], [STX] @ ''05E8000'' @ ''8E'' @ [ETX]], rx = [],
                        tx_faults = []\<rparr>,
            is_timed_mode = True, start_time = None,
            logger = [Info Started, Debug SentENQ, Debug ReceivedAck,
                      Debug (SentPacket ([STX] @ ''05E8000'' @ ''8E'' @ [ETX])),
                      Warning NoResponse]\<rparr>)"
    unfolding default command
    by (simp add: try_except_def seq_def return_def send_command_silent [OF packet_E8_000])
  have cycle: "dispenser_callback ''read_values''
         (init (Some (port [Rx [ACK], Rx (frame_of ''A0'' 45),
                            Rx (frame_of ''D0PD0500DT05000VC0100'' 230)]))) =
       Some (Inr (),
         \<lparr>ser = Some \<lparr>tx = [[ENQ], [STX] @ ''05E8000'' @ ''8E'' @ [ETX], [ACK], [EOT]],
                        rx = [], tx_faults = []\<rparr>,
            is_timed_mode = True, start_time = None,
            logger = [Info Started, Debug SentENQ, Debug ReceivedAck,
                      Debug (SentPacket ([STX] @ ''05E8000'' @ ''8E'' @ [ETX])),
                      Debug (RawResponse (frame_of ''A0'' 45)), Warning NoStartTime,
                      Info ReceivedSuccess, Debug SendingAck,
                      Debug (ReceivedData (frame_of ''D0PD0500DT05000VC0100'' 230)),
                      Debug (ProcessingData (frame_of ''D0PD0500DT05000VC0100'' 230)),
                      Debug (CommandAndData ''D0PD0500DT05000VC0100''), Debug SendingEOT,
                      Info (Pressure 50), Info (Time (1 / 2)), Info (Vacuum 10)]\<rparr>)"
    unfolding default command
    by (simp add: try_except_def seq_def return_def read_cycle parse say_def)
  from silent same
  have silent0: "dispenser_callback ''read_values 0'' (init (Some (port [Rx [ACK]]))) =
       Some (Inr (),
         \<lparr>ser = Some \<lparr>tx = [[ENQ], [STX] @ ''05E8000'' @ ''8E'' @ [ETX]], rx = [],
                        tx_faults = []\<rparr>,
            is_timed_mode = True, start_time = None,
            logger = [Info Started, Debug SentENQ, Debug ReceivedAck,
                      Debug (SentPacket ([STX] @ ''05E8000'' @ ''8E'' @ [ETX])),
                      Warning NoResponse]\<rparr>)"
    by simp
  show ?thesis
    using same default command packet_E8_000 silent silent0 cycle by (intro conjI)
qed

section \<open>Pressure and dispense time\<close>

lemma round_half_even_nonneg: "0 \<le> n \<Longrightarrow> 0 < d \<Longrightarrow> 0 \<le> round_half_even n d"
  by (auto simp: round_half_even_def Let_def pos_imp_zdiv_nonneg_iff)

lemma quotient_of_nonneg:
  assumes "0 \<le> x" "quotient_of x = (n, d)"
  shows "0 \<le> n" "0 < d"
proof -
  show d: "0 < d" using assms(2) by (rule quotient_of_denom_pos)
  have "x = of_int n / of_int d" using assms(2) by (rule quotient_of_div)
  with assms(1) d show "0 \<le> n" by (simp add: zero_le_divide_iff)
qed

lemma round64_nonneg:
  assumes "0 \<le> x"
  shows "0 \<le> round64 x"
proof (cases "x = 0")
  case True
  then show ?thesis by (simp add: round64_def)
next
  case False
  obtain n d where q: "quotient_of \<bar>x\<bar> = (n, d)" by (cases "quotient_of \<bar>x\<bar>")
  have nd: "0 \<le> n" "0 < d" using quotient_of_nonneg [OF _ q] by simp_all
  then have "0 \<le> round_half_even n (d * 2 ^ j)" "0 \<le> round_half_even (n * 2 ^ j) d" for j
    by (simp_all add: round_half_even_nonneg)
  moreover have "0 \<le> round_half_even n d"
    using nd by (rule round_half_even_nonneg)
  ultimately show ?thesis
    using assms False q
    by (simp add: round64_def Let_def)
qed

lemma int_of_float_fmul:
  "0 \<le> x \<Longrightarrow> 0 \<le> c \<Longrightarrow> int_of_float (fmul x c) = \<lfloor>fmul x c\<rfloor>"
  by (simp add: int_of_float_def fmul_def round64_nonneg)

text \<open>
  A product that is at most an integer below \<open>2 ^ 52\<close> is rounded to at most that integer,
  since the integer is a binary64 number with the exponent of the product or a smaller one.
\<close>

lemma bit_length_bounds:
  "0 < n \<Longrightarrow> n < 2 ^ bit_length n \<and> 2 ^ (bit_length n - 1) \<le> n"
proof (induction n rule: bit_length.induct)
  case (1 n)
  show ?case
  proof (cases "n = 1")
    case True
    then show ?thesis
      by (simp add: bit_length.simps [of 1] bit_length.simps [of 0])
  next
    case False
    with "1.prems" have h: "0 < n div 2" "\<not> n \<le> 0" by simp_all
    from "1.IH" [OF h(2) h(1)]
    have ih: "n div 2 < 2 ^ bit_length (n div 2)"
      "2 ^ (bit_length (n div 2) - 1) \<le> n div 2" by simp_all
    have pos: "0 < bit_length (n div 2)"
      using h(1) by (simp add: bit_length.simps [of "n div 2"])
    have bl: "bit_length n = Suc (bit_length (n div 2))"
      using h(2) by (simp add: bit_length.simps [of n])
    from ih(1) have "n < 2 * 2 ^ bit_length (n div 2)" by linarith
    moreover
    from ih(2) have "2 * 2 ^ (bit_length (n div 2) - 1) \<le> n" by linarith
    then have "2 ^ bit_length (n div 2) \<le> n"
      using pos by (cases "bit_length (n div 2)") simp_all
    ultimately show ?thesis
      by (simp add: bl)
  qed
qed

lemma ilog2_ge:
  assumes "0 < n" "0 < d" "int j \<le> ilog2 n d"
  shows "d * 2 ^ j \<le> n"
proof -
  let ?k = "int (bit_length n) - int (bit_length d)"
  note bn = bit_length_bounds [OF assms(1)]
  note bd = bit_length_bounds [OF assms(2)]
  show ?thesis
  proof (cases "ilog2 n d = ?k")
    case True
    with assms(3) have k: "int j \<le> ?k" by simp
    then have nonneg: "0 \<le> ?k" by simp
    have "d * 2 ^ nat ?k \<le> n"
    proof (rule ccontr)
      assume "\<not> d * 2 ^ nat ?k \<le> n"
      with nonneg have "ilog2 n d = ?k - 1" by (simp add: ilog2_def Let_def)
      with True show False by simp
    qed
    moreover have "(2::int) ^ j \<le> 2 ^ nat ?k"
      using k by (intro power_increasing) simp_all
    then have "d * 2 ^ j \<le> d * 2 ^ nat ?k"
      using assms(2) by simp
    ultimately show ?thesis by simp
  next
    case False
    then have "ilog2 n d = ?k - 1" by (simp add: ilog2_def Let_def split: if_splits)
    with assms(3) have k: "bit_length d + j \<le> bit_length n - 1" by simp
    from bd have "d * 2 ^ j < 2 ^ bit_length d * 2 ^ j" by simp
    also have "\<dots> = 2 ^ (bit_length d + j)" by (simp add: power_add)
    also have "\<dots> \<le> 2 ^ (bit_length n - 1)"
      using k by (intro power_increasing) simp_all
    also have "\<dots> \<le> n" using bn by simp
    finally show ?thesis by simp
  qed
qed

lemma round_half_even_le:
  assumes "0 < d" "a \<le> B * d"
  shows "round_half_even a d \<le> B"
proof -
  from assms have q: "a div d \<le> B"
    by (metis div_mult_self_is_m mult.commute zdiv_mono1 nonzero_mult_div_cancel_right
        less_irrefl)
  show ?thesis
  proof (cases "a div d = B")
    case True
    have "a = d * (a div d) + a mod d" by simp
    with True assms(2) have "a mod d \<le> 0" by (simp add: mult.commute)
    moreover have "0 \<le> a mod d" using assms(1) by simp
    ultimately have "a mod d = 0" by simp
    with True assms(1) show ?thesis by (simp add: round_half_even_def Let_def)
  next
    case False
    with q have "a div d + 1 \<le> B" by simp
    then show ?thesis by (simp add: round_half_even_def Let_def)
  qed
qed


lemma round64_le:
  assumes "0 \<le> x" "x \<le> of_int B" "B < 2 ^ 52"
  shows "round64 x \<le> of_int B"
proof (cases "x = 0")
  case True
  with assms show ?thesis by (simp add: round64_def)
next
  case False
  with assms(1) have pos: "0 < x" by simp
  obtain n d where q: "quotient_of \<bar>x\<bar> = (n, d)" by (cases "quotient_of \<bar>x\<bar>")
  have d: "0 < d" using q by (rule quotient_of_denom_pos)
  have x: "x = of_int n / of_int d" using quotient_of_div [OF q] pos by simp
  with pos d have n: "0 < n" by (simp add: zero_less_divide_iff)
  from assms(2) x d have nB: "n \<le> B * d"
    by (simp add: pos_divide_le_eq flip: of_int_mult)
  have small: "ilog2 n d < 52"
  proof (rule ccontr)
    assume "\<not> ilog2 n d < 52"
    then have "int 52 \<le> ilog2 n d" by simp
    from ilog2_ge [OF n d this] have "d * 2 ^ 52 \<le> n" .
    with nB have "d * 2 ^ 52 \<le> B * d" by simp
    with d have "2 ^ 52 \<le> B" by (simp add: mult.commute)
    with assms(3) show False by simp
  qed
  define k where "k = max (ilog2 n d - 52) (- 1074)"
  define j where "j = nat (- k)"
  from small have k: "k < 0" by (simp add: k_def)
  have "n * 2 ^ j \<le> (B * 2 ^ j) * d"
    using nB by (simp add: mult.assoc mult.left_commute)
  from round_half_even_le [OF d this]
  have m: "round_half_even (n * 2 ^ j) d \<le> B * 2 ^ j" .
  from m have "(of_int (round_half_even (n * 2 ^ j) d) :: rat) \<le> of_int (B * 2 ^ j)"
    by (simp only: of_int_le_iff)
  then have "(of_int (round_half_even (n * 2 ^ j) d) :: rat) / 2 ^ j
      \<le> of_int (B * 2 ^ j) / 2 ^ j"
    by (rule divide_right_mono) simp
  moreover have "round64 x = of_int (round_half_even (n * 2 ^ j) d) / 2 ^ j"
    using False pos q k by (simp add: round64_def Let_def k_def j_def)
  ultimately show ?thesis by simp
qed

lemma pressure_data_range:
  assumes "0 \<le> x" "x \<le> 100"
  shows "0 \<le> \<lfloor>fmul x 10\<rfloor>" "\<lfloor>fmul x 10\<rfloor> \<le> 1000"
proof -
  have "0 \<le> x * 10" using assms(1) by simp
  then have "0 \<le> round64 (x * 10)" by (rule round64_nonneg)
  then show "0 \<le> \<lfloor>fmul x 10\<rfloor>" by (simp add: fmul_def)
  have "x * 10 \<le> of_int 1000" using assms(2) by simp
  from round64_le [OF \<open>0 \<le> x * 10\<close> this] have "round64 (x * 10) \<le> 1000" by simp
  then show "\<lfloor>fmul x 10\<rfloor> \<le> 1000"
    by (simp add: fmul_def floor_le_iff)
qed

lemma digits_of_10_length:
  assumes "0 \<le> n" "n \<le> 9999"
  shows "length (digits_of 10 n) \<le> 4"
proof -
  from assms have a: "n div 10 \<le> 999" "0 \<le> n div 10" by simp_all
  then have b: "n div 10 div 10 \<le> 99" "0 \<le> n div 10 div 10" by simp_all
  then have c: "n div 10 div 10 div 10 \<le> 9" by simp
  then have "length (digits_of 10 (n div 10 div 10 div 10)) = 1"
    by (simp add: digits_of.simps [of 10 "n div 10 div 10 div 10"])
  then have "length (digits_of 10 (n div 10 div 10)) \<le> 2"
    by (simp add: digits_of.simps [of 10 "n div 10 div 10"])
  then have "length (digits_of 10 (n div 10)) \<le> 3"
    by (simp add: digits_of.simps [of 10 "n div 10"])
  then show ?thesis
    by (simp add: digits_of.simps [of 10 n])
qed

lemma format_4_length:
  assumes "0 \<le> n" "n \<le> 9999"
  shows "length (format_int 10 4 n) = 4"
  using digits_of_10_length [OF assms] assms(1)
  by (simp add: format_int_def Let_def)

lemma argument_examples:
  "argument ''pressure 0.375'' = Inr ''0.375''"
  "argument ''pressure 100.0001'' = Inr ''100.0001''"
  "argument ''pressure 100.0'' = Inr ''100.0''"
  "argument ''time 0.0003'' = Inr ''0.0003''"
  "argument ''time 9.9999'' = Inr ''9.9999''"
  "argument ''time 0.5'' = Inr ''0.5''"
  by (simp_all add: argument_def py_index_def)

lemma float_375: "py_float ''0.375'' = Some (Finite (3 / 8))"
  by code_simp

lemma float_375_data:
  "format_int 10 4 (int_of_float (fmul (3 / 8) 10)) = ''0003''"
  "format_int 10 4 (py_round (fmul (3 / 8) 10)) = ''0004''"
  by code_simp+

lemma float_0003: "py_float ''0.0003'' = Some (Finite (round64 (3 / 10000)))"
  by code_simp

lemma float_0003_facts:
  "round64 (3 / 10000) \<le> round64 (99999 / 10000)"
  "round64 (3 / 10000) < 1"
  "fmul (round64 (3 / 10000)) 10000 < 3"
  "format_int 10 4 (int_of_float (fmul (round64 (3 / 10000)) 10000)) = ''0002''"
  "format_int 10 4 (py_round (fmul (round64 (3 / 10000)) 10000)) = ''0003''"
  by code_simp+

lemma float_99999: "py_float ''9.9999'' = Some (Finite (round64 (99999 / 10000)))"
  by code_simp

lemma float_99999_facts:
  "\<not> round64 (99999 / 10000) < 1"
  "format_int 10 5 (int_of_float (fmul (round64 (99999 / 10000)) 10000)) = ''99999''"
  by code_simp+

lemma float_05: "py_float ''0.5'' = Some (Finite (1 / 2))"
  by code_simp

lemma float_05_facts:
  "(1 / 2 :: rat) \<le> round64 (99999 / 10000)"
  "format_int 10 4 (int_of_float (fmul (1 / 2) 10000)) = ''5000''"
  by code_simp+

lemma float_100: "py_float ''100.0'' = Some (Finite 100)"
  by code_simp

lemma float_100_data: "format_int 10 4 (int_of_float (fmul 100 10)) = ''1000''"
  by code_simp

lemma float_1000001: "py_float ''100.0001'' = Some (Finite (round64 (1000001 / 10000)))"
  by code_simp

lemma float_1000001_facts: "100 < round64 (1000001 / 10000)"
  by code_simp

lemma packets:
  "packet ''PS  '' ''0003'' = Inr ([STX] @ ''08PS  0003'' @ ''F2'' @ [ETX])"
  "packet ''PS  '' ''1000'' = Inr ([STX] @ ''08PS  1000'' @ ''F4'' @ [ETX])"
  "packet ''DS  '' ''T0002'' = Inr ([STX] @ ''09DS  T0002'' @ ''AA'' @ [ETX])"
  "packet ''DS  '' ''T99999'' = Inr ([STX] @ ''0ADS  T99999'' @ ''47'' @ [ETX])"
  "packet ''DS  '' ''T5000'' = Inr ([STX] @ ''09DS  T5000'' @ ''A7'' @ [ETX])"
  by (simp_all add: packet_def eval_format eval_checksum)

lemmas eval_dispatch = dispenser_callback_def startswith_def argument_examples try_except_def
  seq_def return_def Let_def

text \<open>
  Claim C5, as amended. A pressure from 0.0 to 100.0 is sent with the command code \<open>PS\<close>
  and two spaces, the data being the integer part of ten times the value, the fraction cut
  off, padded with zeros to four digits. Any other value, 100.0001 for one, is logged as
  invalid and nothing else is done: no command is sent.
\<close>

theorem set_pressure_truncates:
  "(0 \<le> x \<and> x \<le> 100 \<longrightarrow>
      set_pressure (Finite x) st =
        seq (send_command ''PS  '' (format_int 10 4 \<lfloor>fmul x 10\<rfloor>) False) (\<lambda>_. return ()) st
      \<and> 0 \<le> \<lfloor>fmul x 10\<rfloor> \<and> \<lfloor>fmul x 10\<rfloor> \<le> 1000
      \<and> length (format_int 10 4 \<lfloor>fmul x 10\<rfloor>) = 4)
   \<and> (\<not> (0 \<le> x \<and> x \<le> 100) \<longrightarrow>
      set_pressure (Finite x) st = Some (Inr (), say (Error (InvalidPressure (Finite x))) st))
   \<and> set_pressure (Inf b) st = Some (Inr (), say (Error (InvalidPressure (Inf b))) st)
   \<and> set_pressure NaN st = Some (Inr (), say (Error (InvalidPressure NaN)) st)"
proof -
  have "length (format_int 10 4 \<lfloor>fmul x 10\<rfloor>) = 4" if "0 \<le> x" "x \<le> 100"
    using pressure_data_range [OF that] by (intro format_4_length) simp_all
  then show ?thesis
    using pressure_data_range [of x]
    by (simp add: set_pressure_def Let_def int_of_float_fmul emit_def)
qed

theorem set_pressure_truncates_witness:
  "(0::rat) \<le> 50 \<and> (50::rat) \<le> 100
   \<and> set_pressure (Finite 50) (init None) =
        seq (send_command ''PS  '' ''0500'' False) (\<lambda>_. return ()) (init None)
   \<and> \<not> (0 \<le> round64 (1000001 / 10000) \<and> round64 (1000001 / 10000) \<le> 100)
   \<and> set_pressure (Finite (round64 (1000001 / 10000))) (init None) =
        Some (Inr (), say (Error (InvalidPressure (Finite (round64 (1000001 / 10000))))) (init None))"
proof -
  have a: "format_int 10 4 \<lfloor>fmul 50 10\<rfloor> = ''0500''" by code_simp
  have b: "100 < round64 (1000001 / 10000)" by code_simp
  show ?thesis
    using set_pressure_truncates [of 50 "init None"]
      set_pressure_truncates [of "round64 (1000001 / 10000)" "init None"] a b
    by simp
qed

lemma pressure_limits:
  "dispenser_callback ''pressure 100.0001'' st =
     Some (Inr (), say (Error (InvalidPressure (Finite (round64 (1000001 / 10000))))) st)"
  "map_option (\<lambda>(r, st). (r, map_option tx (ser st)))
        (dispenser_callback ''pressure 100.0'' (init (Some (port [Rx [ACK]]))))
      = Some (Inr (), Some [[ENQ], [STX] @ ''08PS  1000'' @ ''F4'' @ [ETX]])"
  using float_1000001_facts
  by (simp_all add: eval_dispatch float_1000001 float_100 float_100_data set_pressure_def
      emit_def send_command_silent [OF packets(2)])

text \<open>
  Claim C5, as stated, rounds ten times the value. For the pressure 0.375 the product is
  3.75 exactly; rounded it is 4, and the packet that is written has the data \<open>0003\<close>.
\<close>

theorem set_pressure_round_counterexample:
  "py_float ''0.375'' = Some (Finite (3 / 8))
   \<and> format_int 10 4 (py_round (fmul (3 / 8) 10)) = ''0004''
   \<and> map_option (\<lambda>(r, st). (r, map_option tx (ser st)))
        (dispenser_callback ''pressure 0.375'' (init (Some (port [Rx [ACK]]))))
      = Some (Inr (), Some [[ENQ], [STX] @ ''08PS  0003'' @ ''F2'' @ [ETX]])"
  by (simp add: eval_dispatch float_375 float_375_data set_pressure_def
      send_command_silent [OF packets(1)])

text \<open>
  Claim C6 at the dispense time 0.0003. The nearest binary64 number times 10000 is below 3,
  so the integer part is 2 and the packet has the data \<open>T0002\<close>, where the rounded value
  gives \<open>T0003\<close>.
\<close>

theorem dispense_time_0003:
  "py_float ''0.0003'' = Some (Finite (round64 (3 / 10000)))
   \<and> fmul (round64 (3 / 10000)) 10000 < 3
   \<and> format_int 10 4 (py_round (fmul (round64 (3 / 10000)) 10000)) = ''0003''
   \<and> map_option (\<lambda>(r, st). (r, map_option tx (ser st)))
        (dispenser_callback ''time 0.0003'' (init (Some (port [Rx [ACK]]))))
      = Some (Inr (), Some [[ENQ], [STX] @ ''09DS  T0002'' @ ''AA'' @ [ETX]])"
  using round64_nonneg [of "3 / 10000"]
  by (simp add: eval_dispatch float_0003 float_0003_facts set_dispense_time_def
      send_command_silent [OF packets(3)])

text \<open>The two examples of claim C6: 9.9999 and 0.5.\<close>

lemma dispense_time_examples:
  "map_option (\<lambda>(r, st). (r, map_option tx (ser st)))
        (dispenser_callback ''time 9.9999'' (init (Some (port [Rx [ACK]]))))
      = Some (Inr (), Some [[ENQ], [STX] @ ''0ADS  T99999'' @ ''47'' @ [ETX]])"
  "map_option (\<lambda>(r, st). (r, map_option tx (ser st)))
        (dispenser_callback ''time 0.5'' (init (Some (port [Rx [ACK]]))))
      = Some (Inr (), Some [[ENQ], [STX] @ ''09DS  T5000'' @ ''A7'' @ [ETX]])"
  using round64_nonneg [of "99999 / 10000"] float_05_facts(1)
  by (simp_all add: eval_dispatch float_99999 float_99999_facts float_05 float_05_facts(2)
      set_dispense_time_def send_command_silent [OF packets(4)]
      send_command_silent [OF packets(5)])

end
